theory Spec2Isabelle
  imports Main "HOL-Library.Signed_Division"
begin

section \<open>Strings\<close>

text \<open>
  Go strings are byte sequences; they are modelled as \<open>string\<close> (lists of 8-bit
  characters), so \<open>length\<close> is Go's \<open>len\<close>.
\<close>

definition strings_HasPrefix :: "string \<Rightarrow> string \<Rightarrow> bool" where
  \<comment> \<open>\<open>len(s) >= len(prefix) && s[:len(prefix)] == prefix\<close>\<close>
  "strings_HasPrefix s pre = (length pre \<le> length s \<and> take (length pre) s = pre)"

fun strings_Index :: "string \<Rightarrow> string \<Rightarrow> int" where
  \<comment> \<open>index of the first instance of \<open>sep\<close> in \<open>s\<close>, or \<open>-1\<close> when there is none\<close>
  "strings_Index [] sep = (if sep = [] then 0 else -1)"
| "strings_Index (c # s) sep =
     (if strings_HasPrefix (c # s) sep then 0
      else (let r = strings_Index s sep in if r < 0 then -1 else r + 1))"

definition strings_Contains :: "string \<Rightarrow> string \<Rightarrow> bool" where
  \<comment> \<open>\<open>strings.Contains\<close>: \<open>Index(s, substr) >= 0\<close>\<close>
  "strings_Contains s substr = (0 \<le> strings_Index s substr)"

definition toUpper_byte :: "char \<Rightarrow> char" where
  "toUpper_byte c =
     (if (97::nat) \<le> of_char c \<and> of_char c \<le> (122::nat)
      then char_of (of_char c - (32::nat)) else c)"

definition strings_ToUpper :: "string \<Rightarrow> string" where
  \<comment> \<open>\<open>strings.ToUpper\<close> on the bytes \<open>a\<close>..\<open>z\<close>; every other byte is kept. Go maps
      Unicode letters too, but the only non-ASCII code points whose upper case is an ASCII
      letter are U+0131 (to \<open>I\<close>) and U+017F (to \<open>S\<close>), and neither letter occurs in the
      literals \<open>TOKEN=\<close>, \<open>CN=\<close>, \<open>OU=\<close> that the result is compared with.\<close>
  "strings_ToUpper s = map toUpper_byte s"

definition Sprintln :: "string list \<Rightarrow> string" where
  \<comment> \<open>\<open>fmt.Sprintln\<close>: the operands (already formatted) separated by single spaces,
      followed by a newline\<close>
  "Sprintln ops = concat (map (\<lambda>x. x @ '' '') (butlast ops)) @ (case ops of [] \<Rightarrow> [] | _ \<Rightarrow> last ops) @ ''\<newline>''"

section \<open>splitAfter2\<close>

text \<open>
  \<^verbatim>\<open>
  func splitAfter2(s, sep string) (a, b string) {
      i := strings.Index(s, sep)
      k := i + len(sep)
      return s[:k], s[k:]
  }
  \<close>
  A slice expression with a bound outside \<open>0..len(s)\<close> panics; that is the result
  \<open>None\<close>.
\<close>

definition splitAfter2 :: "string \<Rightarrow> string \<Rightarrow> (string \<times> string) option" where
  "splitAfter2 s sep =
     (let i = strings_Index s sep;
          k = i + int (length sep)
      in if 0 \<le> k \<and> k \<le> int (length s) then Some (take (nat k) s, drop (nat k) s) else None)"

section \<open>Process state and outcomes\<close>

text \<open>
  The process writes to standard output and standard error, keeps the log buffer
  \<open>logbuf\<close> (\<open>log.SetOutput(&logbuf)\<close>), calls the remote service and sleeps. The
  calls and sleeps are recorded in order in \<open>events\<close>.
\<close>

datatype tls_config = TLSConfigHandle nat
  \<comment> \<open>an opaque \<open>*tls.Config\<close>\<close>

record transport =
  Dialer_Timeout :: nat \<comment> \<open>seconds\<close>
  Dialer_KeepAlive :: nat \<comment> \<open>seconds\<close>
  Dialer_DualStack :: bool
  MaxIdleConns :: nat
  IdleConnTimeout :: nat \<comment> \<open>seconds\<close>
  TLSClientConfig :: tls_config
  TLSHandshakeTimeout :: nat \<comment> \<open>seconds\<close>
  ExpectContinueTimeout :: nat \<comment> \<open>seconds\<close>

record client =
  BaseURL :: string
  Client :: "transport option" \<comment> \<open>\<open>None\<close> is the nil \<open>*http.Client\<close>\<close>

datatype gvalue =
    Nil \<comment> \<open>the nil interface value\<close>
  | Str string
  | StrMap "(string \<times> string) list" \<comment> \<open>a \<open>map[string]string\<close> literal\<close>
  | Map "(string \<times> gvalue) list" \<comment> \<open>a \<open>map[string]interface{}\<close> literal\<close>

record grantReq =
  Policy :: string \<comment> \<open>\<open>json:"policy"\<close>\<close>
  GuardType :: string \<comment> \<open>\<open>json:"guard_type"\<close>\<close>
  GuardData :: gvalue \<comment> \<open>\<open>json:"guard_data"\<close>\<close>

datatype event =
    is_Call: Call client string "grantReq option" \<comment> \<open>\<open>client.Call(ctx, path, req, nil)\<close>\<close>
  | Sleep nat \<comment> \<open>\<open>time.Sleep\<close>, in milliseconds\<close>

record world =
  stdout :: string
  stderr :: string
  logbuf :: string
  events :: "event list"

datatype 'a outcome =
    Return 'a
  | Exit int \<comment> \<open>\<open>os.Exit(code)\<close>\<close>
  | Panic \<comment> \<open>a run-time panic\<close>

subsection \<open>Errors of the RPC client\<close>

record error_data =
  ChainCode :: string
  Message :: string
  Detail :: string

record err_status_code =
  StatusCode :: int
  ErrorData :: "error_data option" \<comment> \<open>a pointer; \<open>None\<close> is nil\<close>

text \<open>
  A non-nil \<open>error\<close>: the text its \<open>Error()\<close> method returns, which is what \<open>fmt\<close>
  prints for it, and the result of the assertion \<open>errors.Root(err).(rpc.ErrStatusCode)\<close>
  (\<open>None\<close> when the root is of another type). The nil error is \<open>None :: go_error option\<close>.
\<close>

record go_error =
  Error :: string
  Root :: "err_status_code option"

subsection \<open>The environment of one run\<close>

datatype tls_result =
    ErrNoTLS
  | TLSError string \<comment> \<open>another non-nil error, with its \<open>Error()\<close> text\<close>
  | TLSOk tls_config

record reply =
  reply_log :: string \<comment> \<open>what the call writes to the log while it runs\<close>
  reply_err :: "go_error option"

text \<open>
  What the code reads from outside \<open>main.go\<close>: the configured URL, the build variables set
  by the linker, the result of
  \<open>core.TLSConfig(filepath.Join(home, "tls.crt"), filepath.Join(home, "tls.key"), "")\<close>
  (package \<open>core\<close> is not part of \<open>main.go\<close>), the result of the \<open>n\<close>-th call of
  \<open>rpc.Client.Call\<close> (counting from 0), and the order in which \<open>range commands\<close> yields
  the keys of the map in this run. Go yields every key of a map exactly once, in an order it
  does not fix; \<open>range_order e\<close> says that of \<open>range_commands e\<close> (see the section on
  \<open>main\<close>).
\<close>

record env =
  coreURL :: string
  buildTag :: string
  buildCommit :: string
  buildDate :: string
  TLSConfig :: tls_result
  respond :: "nat \<Rightarrow> reply"
  range_commands :: "string list"

definition num_calls :: "event list \<Rightarrow> nat" where
  "num_calls evs = length (filter is_Call evs)"

definition rpc_Call ::
  "env \<Rightarrow> client \<Rightarrow> string \<Rightarrow> grantReq option \<Rightarrow> world \<Rightarrow> go_error option \<times> world" where
  "rpc_Call e cl path req w =
     (let r = respond e (num_calls (events w))
      in (reply_err r,
          w\<lparr>logbuf := logbuf w @ reply_log r, events := events w @ [Call cl path req]\<rparr>))"

definition time_Sleep :: "nat \<Rightarrow> world \<Rightarrow> world" where
  "time_Sleep ms w = w\<lparr>events := events w @ [Sleep ms]\<rparr>"

definition Fprintln_stderr :: "string list \<Rightarrow> world \<Rightarrow> world" where
  "Fprintln_stderr ops w = w\<lparr>stderr := stderr w @ Sprintln ops\<rparr>"

definition Fprint_stdout :: "string \<Rightarrow> world \<Rightarrow> world" where
  "Fprint_stdout s w = w\<lparr>stdout := stdout w @ s\<rparr>"

definition Fprint_stderr :: "string \<Rightarrow> world \<Rightarrow> world" where
  "Fprint_stderr s w = w\<lparr>stderr := stderr w @ s\<rparr>"

definition copy_logbuf :: "world \<Rightarrow> world" where
  \<comment> \<open>\<open>io.Copy(os.Stderr, &logbuf)\<close>: the buffer is written out and left empty\<close>
  "copy_logbuf w = w\<lparr>stderr := stderr w @ logbuf w, logbuf := []\<rparr>"

section \<open>fatalln and dieOnRPCError\<close>

definition fatalln :: "string list \<Rightarrow> world \<Rightarrow> 'a outcome \<times> world" where
  "fatalln v w = (Exit 2, Fprintln_stderr v (copy_logbuf w))"

definition dieOnRPCError :: "go_error option \<Rightarrow> string list \<Rightarrow> world \<Rightarrow> unit outcome \<times> world" where
  "dieOnRPCError err prefixes w =
     (case err of
        None \<Rightarrow> (Return (), w)
      | Some e \<Rightarrow>
          (let w1 = copy_logbuf w;
               w2 = (if length prefixes > 0 then Fprintln_stderr prefixes w1 else w1);
               w3 = (case Root e of
                       Some msgErr \<Rightarrow>
                         (case ErrorData msgErr of
                            Some d \<Rightarrow>
                              (let w' = Fprintln_stderr [''RPC error:'', ChainCode d, Message d] w2
                               in if Detail d \<noteq> [] then Fprintln_stderr [''Detail:'', Detail d] w'
                                  else w')
                          | None \<Rightarrow> Fprintln_stderr [''RPC error:'', Error e] w2)
                     | None \<Rightarrow> Fprintln_stderr [''RPC error:'', Error e] w2)
           in (Exit 2, w3)))"

section \<open>mustRPCClient\<close>

definition mustRPCClient :: "env \<Rightarrow> world \<Rightarrow> client outcome \<times> world" where
  "mustRPCClient e w =
     (case TLSConfig e of
        ErrNoTLS \<Rightarrow> (Return \<lparr>BaseURL = coreURL e, Client = None\<rparr>, w)
      | TLSError err \<Rightarrow> fatalln [''error: loading TLS cert:'', err] w
      | TLSOk config \<Rightarrow>
          (let t = \<lparr>Dialer_Timeout = 30, Dialer_KeepAlive = 30, Dialer_DualStack = True,
                    MaxIdleConns = 100, IdleConnTimeout = 90, TLSClientConfig = config,
                    TLSHandshakeTimeout = 10, ExpectContinueTimeout = 1\<rparr>;
               url = coreURL e;
               url = (if strings_HasPrefix url ''http:'' then ''https:'' @ drop 5 url else url)
           in (Return \<lparr>BaseURL = url, Client = Some t\<rparr>, w)))"

section \<open>grant and revoke\<close>

text \<open>
  \<open>flags.Parse(args)\<close> on a zero \<open>flag.FlagSet\<close> (package \<open>flag\<close> of the Go standard
  library): no flag is defined and the error handling is \<open>ContinueOnError\<close>. Parsing stops
  at the first argument that is not flag-like (shorter than two bytes, or not starting
  with \<open>-\<close>) and after \<open>--\<close>; since no flag is defined, every flag-like argument fails:
  a message is printed (none for \<open>-h\<close> and \<open>-help\<close>) and \<open>Usage\<close> is called. The result is
  \<open>Inr\<close> of the remaining arguments (\<open>flags.Args()\<close>) or \<open>Inl\<close> of the message.
\<close>

definition flags_Parse :: "string list \<Rightarrow> string option + string list" where
  "flags_Parse args =
     (case args of
        [] \<Rightarrow> Inr []
      | s # rest \<Rightarrow>
          if length s < 2 \<or> hd s \<noteq> CHR ''-'' then Inr args
          else if s = ''--'' then Inr rest
          else
            (let numMinuses = (if s ! 1 = CHR ''-'' then 2 else 1);
                 name = drop numMinuses s
             in if length name = 0 \<or> hd name = CHR ''-'' \<or> hd name = CHR ''=''
                then Inl (Some (''bad flag syntax: '' @ s))
                else
                  (let name = hd name # takeWhile (\<lambda>c. c \<noteq> CHR ''='') (tl name)
                   in if name = ''help'' \<or> name = ''h'' then Inl None
                      else Inl (Some (''flag provided but not defined: -'' @ name)))))"

definition guard_help :: string where
  "guard_help =
     ''\<newline>Where guard is one of:\<newline>'' @
     ''  token=[id]   to affect an access token\<newline>'' @
     ''  CN=[name]    to affect an X.509 Common Name\<newline>'' @
     ''  OU=[name]    to affect an X.509 Organizational Unit\<newline>'' @
     ''\<newline>The type of guard (before the = sign) is case-insensitive.\<newline>''"

definition flags_Usage :: "string \<Rightarrow> world \<Rightarrow> 'a outcome \<times> world" where
  "flags_Usage usage w = (Exit 1, Fprintln_stderr [guard_help] (Fprintln_stderr [usage] w))"

text \<open>
  The \<open>switch\<close> of \<open>editAuthz\<close> on \<open>strings.ToUpper(typ)\<close>; \<open>None\<close> is its \<open>default\<close>
  branch.
\<close>

definition setGuard :: "grantReq \<Rightarrow> string \<Rightarrow> string \<Rightarrow> grantReq option" where
  "setGuard req typ data =
     (let u = strings_ToUpper typ
      in if u = ''TOKEN='' then
           Some (req\<lparr>GuardType := ''access_token'', GuardData := Map [(''id'', Str data)]\<rparr>)
         else if u = ''CN='' then
           Some (req\<lparr>GuardType := ''x509'',
                     GuardData := Map [(''subject'', StrMap [(''CN'', data)])]\<rparr>)
         else if u = ''OU='' then
           Some (req\<lparr>GuardType := ''x509'',
                     GuardData := Map [(''subject'', StrMap [(''OU'', data)])]\<rparr>)
         else None)"

definition authz_path :: "string \<Rightarrow> string" where
  \<comment> \<open>indexing the map literal; a missing key gives the empty string\<close>
  "authz_path action =
     (case map_of [(''grant'', ''/create-authorization-grant''),
                   (''revoke'', ''/delete-authorization-grant'')] action of
        None \<Rightarrow> [] | Some p \<Rightarrow> p)"

definition authz_usage :: "string \<Rightarrow> string" where
  \<comment> \<open>the local \<open>usage\<close> of \<open>editAuthz\<close>\<close>
  "authz_usage action = ''usage: corectl '' @ action @ '' [policy] [guard]''"

definition editAuthz ::
  "env \<Rightarrow> client \<Rightarrow> string list \<Rightarrow> string \<Rightarrow> world \<Rightarrow> unit outcome \<times> world" where
  "editAuthz e cl args action w =
     (let usage = authz_usage action
      in case flags_Parse args of
           Inl msg \<Rightarrow>
             flags_Usage usage (case msg of None \<Rightarrow> w | Some m \<Rightarrow> Fprintln_stderr [m] w)
         | Inr args \<Rightarrow>
             if length args \<noteq> 2 then fatalln [usage] w
             else
               (let req = \<lparr>Policy = args ! 0, GuardType = [], GuardData = Nil\<rparr>
                in case splitAfter2 (args ! 1) ''='' of
                     None \<Rightarrow> (Panic, w)
                   | Some (typ, data) \<Rightarrow>
                       (case setGuard req typ data of
                          None \<Rightarrow>
                            fatalln [usage] (Fprintln_stderr [''unknown guard type'', typ] w)
                        | Some req \<Rightarrow>
                            (case rpc_Call e cl (authz_path action) (Some req) w of
                               (err, w1) \<Rightarrow> dieOnRPCError err [] w1))))"

definition grant :: "env \<Rightarrow> client \<Rightarrow> string list \<Rightarrow> world \<Rightarrow> unit outcome \<times> world" where
  "grant e cl args = editAuthz e cl args ''grant''"

definition revoke :: "env \<Rightarrow> client \<Rightarrow> string list \<Rightarrow> world \<Rightarrow> unit outcome \<times> world" where
  "revoke e cl args = editAuthz e cl args ''revoke''"

section \<open>wait\<close>

text \<open>
  \<^verbatim>\<open>
  for {
      err := client.Call(context.Background(), "/info", nil, nil)
      if err == nil { break }
      if statusErr, ok := errors.Root(err).(rpc.ErrStatusCode); ok && statusErr.StatusCode/100 != 5 { break }
      time.Sleep(500 * time.Millisecond)
  }
  \<close>
  The loop has no bound, so it is a partial function: \<open>None\<close> is the run that never leaves
  the loop. Go's \<open>/\<close> on integers truncates, which is \<open>sdiv\<close>.
\<close>

partial_function (option) wait_loop :: "env \<Rightarrow> client \<Rightarrow> world \<Rightarrow> world option" where
  "wait_loop e cl w =
     (case rpc_Call e cl ''/info'' None w of
        (err, w1) \<Rightarrow>
          (case err of
             None \<Rightarrow> Some w1
           | Some er \<Rightarrow>
               if (case Root er of
                     Some statusErr \<Rightarrow> StatusCode statusErr sdiv 100 \<noteq> 5
                   | None \<Rightarrow> False)
               then Some w1
               else wait_loop e cl (time_Sleep 500 w1)))"

definition wait :: "env \<Rightarrow> client \<Rightarrow> string list \<Rightarrow> world \<Rightarrow> (unit outcome \<times> world) option" where
  "wait e cl args w =
     (if length args \<noteq> 0 then Some (fatalln [''error: wait takes no args''] w)
      else map_option (\<lambda>w'. (Return (), w')) (wait_loop e cl w))"

section \<open>main\<close>

datatype handler =
    CreateBlockKeyPair | Reset | Grant | Revoke | Wait | CreateAccount | UpdateAccountTags
  | CreateAsset | UpdateAssetTags | BuildTransaction

definition commands :: "(string \<times> handler) list" where
  "commands =
     [(''create-block-keypair'', CreateBlockKeyPair),
      (''reset'', Reset),
      (''grant'', Grant),
      (''revoke'', Revoke),
      (''wait'', Wait),
      (''create-account'', CreateAccount),
      (''update-account-tags'', UpdateAccountTags),
      (''create-asset'', CreateAsset),
      (''update-asset-tags'', UpdateAssetTags),
      (''build-transaction'', BuildTransaction)]"

definition range_order :: "env \<Rightarrow> bool" where
  \<comment> \<open>\<open>range commands\<close> yields every registered name exactly once\<close>
  "range_order e =
     (distinct (range_commands e) \<and> set (range_commands e) = set (map fst commands))"

definition help_text :: "env \<Rightarrow> string" where
  \<comment> \<open>what \<open>help(w)\<close> writes to \<open>w\<close>\<close>
  "help_text e =
     Sprintln [''usage: corectl [-version] [command] [arguments]''] @
     ''\<newline>The commands are:\<newline>\<newline>'' @
     concat (map (\<lambda>name. Sprintln ([CHR 0x09] # [name])) (range_commands e)) @
     ''\<newline>Flags:\<newline>'' @
     Sprintln [CHR 0x09 # ''-version   print version information''] @
     Sprintln []"

definition strings_TrimPrefix :: "string \<Rightarrow> string \<Rightarrow> string" where
  "strings_TrimPrefix s pre = (if strings_HasPrefix s pre then drop (length pre) s else s)"

text \<open>
  \<open>main\<close> in two parts: the \<open>-version\<close> branch, and the command dispatcher (from
  \<open>if len(os.Args) < 2\<close> to the last statement \<open>cmd.f(mustRPCClient(), os.Args[2:])\<close>).
  The result \<open>Invoke h cl rest\<close> stands for the call of handler \<open>h\<close> with client \<open>cl\<close> and
  arguments \<open>rest\<close>; \<open>Returned\<close> is the \<open>return\<close> of the \<open>-version\<close> branch. The two
  first statements, \<open>log.SetOutput(&logbuf)\<close> and \<open>env.Parse()\<close>, set up what the model
  already has: the log goes to \<open>logbuf\<close>, and \<open>coreURL\<close> is the configured URL.
\<close>

datatype main_result = Returned | Invoke handler client "string list"

definition dispatch :: "env \<Rightarrow> string list \<Rightarrow> world \<Rightarrow> main_result outcome \<times> world" where
  "dispatch e Args w =
     (if length Args < 2 then (Exit 0, Fprint_stdout (help_text e) w)
      else
        (case map_of commands (Args ! 1) of
           None \<Rightarrow>
             (Exit 1, Fprint_stderr (help_text e) (Fprintln_stderr [''unknown command:'', Args ! 1] w))
         | Some cmd \<Rightarrow>
             (case mustRPCClient e w of
                (Return cl, w1) \<Rightarrow> (Return (Invoke cmd cl (drop 2 Args)), w1)
              | (Exit code, w1) \<Rightarrow> (Exit code, w1)
              | (Panic, w1) \<Rightarrow> (Panic, w1))))"

definition main :: "env \<Rightarrow> string list \<Rightarrow> world \<Rightarrow> main_result outcome \<times> world" where
  "main e Args w =
     (if length Args \<ge> 2 \<and> Args ! 1 = ''-version'' then
        (let version = (if buildTag e \<noteq> ''?'' then strings_TrimPrefix (buildTag e) ''bytom-''
                        else [])
         in (Return Returned,
             Fprint_stdout (''build-date: '' @ buildDate e @ ''\<newline>'')
               (Fprint_stdout (''build-commit: '' @ buildCommit e @ ''\<newline>'')
                 (Fprint_stdout (''bytomcli '' @ version @ ''\<newline>'') w))))
      else dispatch e Args w)"

section \<open>The request body on the wire\<close>

text \<open>
  Modelled from the spec: the body that \<open>rpc.Client.Call\<close> posts for a \<open>grantReq\<close>. Package
  \<open>rpc\<close> is not part of \<open>main.go\<close>; the spec gives the wire payload as the JSON object
  \<open>{policy, guard_type, guard_data}\<close>, written without white space in its scenarios, with
  the member names of the struct's \<open>json\<close> tags in the order of its fields. Only the values
  that need no escaping are covered (strings of plain bytes, map literals with one key);
  \<open>None\<close> is everything else. The definitions of this section, up to \<open>marshal_grantReq\<close>,
  are this model.
\<close>

definition json_plain_byte :: "char \<Rightarrow> bool" where
  \<comment> \<open>printable ASCII other than the quote, the backslash and \<open><\<close>, \<open>>\<close>, \<open>&\<close>\<close>
  "json_plain_byte c =
     ((32::nat) \<le> of_char c \<and> of_char c < (127::nat) \<and>
      c \<notin> {CHR 0x22, CHR 0x5C, CHR ''<'', CHR ''>'', CHR ''&''})"

definition json_string :: "string \<Rightarrow> string option" where
  "json_string s =
     (if list_all json_plain_byte s then Some ([CHR 0x22] @ s @ [CHR 0x22]) else None)"

definition json_member :: "string \<Rightarrow> string option \<Rightarrow> string option" where
  "json_member k v =
     (case (json_string k, v) of (Some k', Some v') \<Rightarrow> Some (k' @ '':'' @ v') | _ \<Rightarrow> None)"

definition json_object1 :: "(string \<times> string option) list \<Rightarrow> string option" where
  \<comment> \<open>a map literal with exactly one key\<close>
  "json_object1 kvs =
     (case kvs of
        [(k, v)] \<Rightarrow> map_option (\<lambda>m. ''{'' @ m @ ''}'') (json_member k v)
      | _ \<Rightarrow> None)"

fun marshal_gvalue :: "gvalue \<Rightarrow> string option" where
  "marshal_gvalue Nil = Some ''null''"
| "marshal_gvalue (Str s) = json_string s"
| "marshal_gvalue (StrMap kvs) = json_object1 (map (\<lambda>kv. (fst kv, json_string (snd kv))) kvs)"
| "marshal_gvalue (Map kvs) = json_object1 (map (\<lambda>kv. (fst kv, marshal_gvalue (snd kv))) kvs)"

definition marshal_grantReq :: "grantReq \<Rightarrow> string option" where
  "marshal_grantReq req =
     (case (json_member ''policy'' (json_string (Policy req)),
            json_member ''guard_type'' (json_string (GuardType req)),
            json_member ''guard_data'' (marshal_gvalue (GuardData req))) of
        (Some p, Some t, Some d) \<Rightarrow> Some (''{'' @ p @ '','' @ t @ '','' @ d @ ''}'')
      | _ \<Rightarrow> None)"

section \<open>Shapes of guard data\<close>

fun id_shape :: "gvalue \<Rightarrow> bool" where
  \<comment> \<open>\<open>{id: string}\<close>\<close>
  "id_shape (Map [(k, Str v)]) = (k = ''id'')"
| "id_shape _ = False"

fun subject_shape :: "gvalue \<Rightarrow> bool" where
  \<comment> \<open>\<open>{subject: {CN or OU: string}}\<close>\<close>
  "subject_shape (Map [(k, StrMap [(f, v)])]) = (k = ''subject'' \<and> (f = ''CN'' \<or> f = ''OU''))"
| "subject_shape _ = False"

definition guard_consistent :: "grantReq \<Rightarrow> bool" where
  "guard_consistent req =
     (((GuardType req = ''access_token'') = id_shape (GuardData req)) \<and>
      ((GuardType req = ''x509'') = subject_shape (GuardData req)))"

section \<open>What wait leaves behind\<close>

definition probe_done :: "go_error option \<Rightarrow> bool" where
  \<comment> \<open>the probe had no error, or a status error whose status is not in the class 5xx\<close>
  "probe_done err =
     (case err of
        None \<Rightarrow> True
      | Some er \<Rightarrow>
          (case Root er of None \<Rightarrow> False | Some statusErr \<Rightarrow> StatusCode statusErr sdiv 100 \<noteq> 5))"

definition server_error :: "go_error option \<Rightarrow> bool" where
  \<comment> \<open>the probe failed with a status error of the class 5xx, such as 503\<close>
  "server_error err =
     (case err of
        None \<Rightarrow> False
      | Some er \<Rightarrow>
          (case Root er of None \<Rightarrow> False | Some statusErr \<Rightarrow> StatusCode statusErr sdiv 100 = 5))"

fun leading_digit :: "nat \<Rightarrow> nat" where
  "leading_digit n = (if n < 10 then n else leading_digit (n div 10))"

declare leading_digit.simps [simp del]

fun wait_events :: "client \<Rightarrow> nat \<Rightarrow> event list" where
  \<comment> \<open>\<open>N + 1\<close> probes of \<open>/info\<close> with a sleep of 500 ms between consecutive probes\<close>
  "wait_events cl 0 = [Call cl ''/info'' None]"
| "wait_events cl (Suc n) = Call cl ''/info'' None # Sleep 500 # wait_events cl n"

definition wait_outcome :: "env \<Rightarrow> client \<Rightarrow> world \<Rightarrow> nat \<Rightarrow> world" where
  \<comment> \<open>the state \<open>w\<close> after these events, with what the \<open>N + 1\<close> calls logged\<close>
  "wait_outcome e cl w N =
     w\<lparr>logbuf := logbuf w @
          concat (map (\<lambda>i. reply_log (respond e i))
                    [num_calls (events w) ..< num_calls (events w) + N + 1]),
       events := events w @ wait_events cl N\<rparr>"

section \<open>A sample run\<close>

definition sample_env :: env where
  "sample_env =
     \<lparr>coreURL = ''http://localhost:1999'', buildTag = ''?'', buildCommit = ''?'',
      buildDate = ''?'', TLSConfig = ErrNoTLS,
      respond = (\<lambda>n. \<lparr>reply_log = ''POST\<newline>'', reply_err = None\<rparr>),
      range_commands = map fst commands\<rparr>"

definition sample_client :: client where
  "sample_client = \<lparr>BaseURL = ''http://localhost:1999'', Client = None\<rparr>"

definition sample_world :: world where
  "sample_world = \<lparr>stdout = [], stderr = [], logbuf = ''starting\<newline>'', events = []\<rparr>"

definition flaky_env :: env where
  \<comment> \<open>a service that answers the first three calls with status 503 and then succeeds\<close>
  "flaky_env =
     sample_env\<lparr>respond := (\<lambda>n.
        if n < 3
        then \<lparr>reply_log = [],
              reply_err = Some \<lparr>Error = ''503 Service Unavailable'',
                                 Root = Some \<lparr>StatusCode = 503, ErrorData = None\<rparr>\<rparr>\<rparr>
        else \<lparr>reply_log = [], reply_err = None\<rparr>)\<rparr>"

section \<open>Properties of splitAfter2\<close>

lemma strings_Index_absent:
  "c \<notin> set s \<Longrightarrow> strings_Index s [c] = -1"
  by (induction s) (auto simp: strings_HasPrefix_def)

lemma strings_Index_first:
  "c \<notin> set p \<Longrightarrow> strings_Index (p @ c # v) [c] = int (length p)"
  by (induction p) (auto simp: strings_HasPrefix_def Let_def)

lemma splitAfter2_absent:
  "c \<notin> set s \<Longrightarrow> splitAfter2 s [c] = Some ([], s)"
  by (simp add: splitAfter2_def strings_Index_absent)

lemma splitAfter2_first:
  "c \<notin> set p \<Longrightarrow> splitAfter2 (p @ c # v) [c] = Some (p @ [c], v)"
proof -
  assume "c \<notin> set p"
  then have i: "strings_Index (p @ c # v) [c] = int (length p)"
    by (rule strings_Index_first)
  have k: "nat (int (length p) + 1) = Suc (length p)"
    by simp
  show ?thesis
    unfolding splitAfter2_def i Let_def by (simp add: k)
qed

text \<open>
  C10: when \<open>s\<close> contains \<open>=\<close>, \<open>splitAfter2 s "="\<close> returns as prefix \<open>s\<close> up to and
  including the first \<open>=\<close> and as value the rest, so prefix followed by value is \<open>s\<close>;
  later \<open>=\<close> characters stay in the value, as in \<open>CN=a=b\<close>, whose value is \<open>a=b\<close>.
\<close>

theorem splitAfter2_at_first_separator:
  assumes "CHR ''='' \<in> set s"
  shows "\<exists>a b. splitAfter2 s ''='' = Some (a, b) \<and> a @ b = s
           \<and> a = takeWhile (\<lambda>c. c \<noteq> CHR ''='') s @ ''=''
           \<and> b = tl (dropWhile (\<lambda>c. c \<noteq> CHR ''='') s)
           \<and> splitAfter2 ''CN=a=b'' ''='' = Some (''CN='', ''a=b'')"
proof -
  let ?p = "takeWhile (\<lambda>c. c \<noteq> CHR ''='') s"
  let ?r = "dropWhile (\<lambda>c. c \<noteq> CHR ''='') s"
  from assms have "?r \<noteq> []" by simp
  moreover have "hd ?r = CHR ''=''"
    using assms hd_dropWhile [of "\<lambda>c. c \<noteq> CHR ''=''" s] by auto
  ultimately have r: "?r = CHR ''='' # tl ?r"
    by (cases ?r) auto
  have s: "s = ?p @ CHR ''='' # tl ?r"
    using takeWhile_dropWhile_id [of "\<lambda>c. c \<noteq> CHR ''=''" s] r by metis
  have "CHR ''='' \<notin> set ?p"
    by (auto dest: set_takeWhileD)
  then have "splitAfter2 (?p @ CHR ''='' # tl ?r) ''='' = Some (?p @ ''='', tl ?r)"
    by (rule splitAfter2_first)
  with s have split: "splitAfter2 s ''='' = Some (?p @ ''='', tl ?r)"
    by simp
  have "CHR ''='' \<notin> set ''CN''" by simp
  then have "splitAfter2 (''CN'' @ CHR ''='' # ''a=b'') ''='' = Some (''CN'' @ ''='', ''a=b'')"
    by (rule splitAfter2_first)
  then have ex: "splitAfter2 ''CN=a=b'' ''='' = Some (''CN='', ''a=b'')"
    by simp
  from split s ex show ?thesis
    by auto
qed

theorem splitAfter2_at_first_separator_witness:
  "CHR ''='' \<in> set ''OU=x=y=z'' \<and>
   (\<exists>a b. splitAfter2 ''OU=x=y=z'' ''='' = Some (a, b) \<and> a @ b = ''OU=x=y=z''
      \<and> a = ''OU='' \<and> b = ''x=y=z'')"
proof -
  have h: "CHR ''='' \<in> set ''OU=x=y=z''" by simp
  show ?thesis
    using h splitAfter2_at_first_separator [OF h] by simp
qed

section \<open>Properties of the guard codec\<close>

lemma toUpper_byte_separator: "toUpper_byte c = CHR ''='' \<longleftrightarrow> c = CHR ''=''"
proof
  assume h: "toUpper_byte c = CHR ''=''"
  show "c = CHR ''=''"
  proof (cases "(97::nat) \<le> of_char c \<and> of_char c \<le> (122::nat)")
    case True
    then have "of_char (toUpper_byte c) = ((of_char c - 32) mod 256 :: nat)"
      by (simp add: toUpper_byte_def)
    moreover have "(of_char c - 32 :: nat) < 256"
      using True by arith
    then have "(of_char c - 32 :: nat) mod 256 = of_char c - 32"
      by (rule mod_less)
    moreover have "of_char (toUpper_byte c) = (61::nat)"
      using h by simp
    ultimately have "(of_char c :: nat) - 32 = 61"
      by simp
    with True show ?thesis by arith
  next
    case False
    with h show ?thesis by (simp add: toUpper_byte_def)
  qed
next
  assume "c = CHR ''=''"
  then show "toUpper_byte c = CHR ''=''" by (simp add: toUpper_byte_def)
qed

lemma ToUpper_separator: "CHR ''='' \<in> set (strings_ToUpper p) \<longleftrightarrow> CHR ''='' \<in> set p"
proof
  assume "CHR ''='' \<in> set (strings_ToUpper p)"
  then obtain c where "c \<in> set p" "toUpper_byte c = CHR ''=''"
    by (auto simp: strings_ToUpper_def)
  then show "CHR ''='' \<in> set p"
    by (simp add: toUpper_byte_separator)
next
  assume "CHR ''='' \<in> set p"
  then have "toUpper_byte (CHR ''='') \<in> set (strings_ToUpper p)"
    unfolding strings_ToUpper_def by (metis imageI set_map)
  then show "CHR ''='' \<in> set (strings_ToUpper p)"
    by (simp add: toUpper_byte_def)
qed

lemma ToUpper_append: "strings_ToUpper (a @ b) = strings_ToUpper a @ strings_ToUpper b"
  by (simp add: strings_ToUpper_def)

lemma ToUpper_sep: "strings_ToUpper ''='' = ''=''"
  by (simp add: strings_ToUpper_def toUpper_byte_def)

lemma splitAfter2_total: "\<exists>typ data. splitAfter2 tok ''='' = Some (typ, data) \<and> typ @ data = tok"
proof (cases "CHR ''='' \<in> set tok")
  case True
  then obtain p v where "tok = p @ CHR ''='' # v" "CHR ''='' \<notin> set p"
    by (meson split_list_first)
  then show ?thesis using splitAfter2_first [of "CHR ''=''" p v] by simp
next
  case False
  then show ?thesis using splitAfter2_absent [of "CHR ''=''" tok] by simp
qed

lemma splitAfter2_guard_token:
  assumes "CHR ''='' \<notin> set p"
  shows "splitAfter2 (p @ ''='' @ v) ''='' = Some (p @ ''='', v)"
  using splitAfter2_first [OF assms, of v] by simp

lemma setGuard_TOKEN:
  "strings_ToUpper p = ''TOKEN'' \<Longrightarrow>
   setGuard req (p @ ''='') v = Some (req\<lparr>GuardType := ''access_token'', GuardData := Map [(''id'', Str v)]\<rparr>)"
  by (simp add: setGuard_def ToUpper_append ToUpper_sep)

lemma setGuard_CN:
  "strings_ToUpper p = ''CN'' \<Longrightarrow>
   setGuard req (p @ ''='') v = Some (req\<lparr>GuardType := ''x509'', GuardData := Map [(''subject'', StrMap [(''CN'', v)])]\<rparr>)"
  by (simp add: setGuard_def ToUpper_append ToUpper_sep)

lemma setGuard_OU:
  "strings_ToUpper p = ''OU'' \<Longrightarrow>
   setGuard req (p @ ''='') v = Some (req\<lparr>GuardType := ''x509'', GuardData := Map [(''subject'', StrMap [(''OU'', v)])]\<rparr>)"
  by (simp add: setGuard_def ToUpper_append ToUpper_sep)

lemma setGuard_None:
  "strings_ToUpper typ \<notin> {''TOKEN='', ''CN='', ''OU=''} \<Longrightarrow> setGuard req typ data = None"
  by (simp add: setGuard_def)

lemma ToUpper_no_separator:
  assumes "strings_ToUpper p \<in> {''TOKEN'', ''CN'', ''OU''}"
  shows "CHR ''='' \<notin> set p"
proof -
  from assms have "CHR ''='' \<notin> set (strings_ToUpper p)"
    by auto
  then show ?thesis
    by (simp add: ToUpper_separator)
qed

lemma editAuthz_parsed:
  assumes "flags_Parse args = Inr [policy, tok]"
    and "splitAfter2 tok ''='' = Some (typ, data)"
  shows "editAuthz e cl args action w =
    (case setGuard \<lparr>Policy = policy, GuardType = [], GuardData = Nil\<rparr> typ data of
       None \<Rightarrow> fatalln [authz_usage action]
                 (Fprintln_stderr [''unknown guard type'', typ] w)
     | Some req \<Rightarrow>
         (case rpc_Call e cl (authz_path action) (Some req) w of
            (err, w1) \<Rightarrow> dieOnRPCError err [] w1))"
  using assms by (simp add: editAuthz_def)

lemma events_dieOnRPCError: "events (snd (dieOnRPCError err ps w)) = events w"
  by (simp add: dieOnRPCError_def Let_def copy_logbuf_def Fprintln_stderr_def
      split: option.splits)

lemma events_rpc_Call: "events (snd (rpc_Call e cl path req w)) = events w @ [Call cl path req]"
  by (simp add: rpc_Call_def Let_def)

lemma editAuthz_sends:
  assumes "flags_Parse args = Inr [policy, tok]"
    and "splitAfter2 tok ''='' = Some (typ, data)"
    and "setGuard \<lparr>Policy = policy, GuardType = [], GuardData = Nil\<rparr> typ data = Some req"
  shows "events (snd (editAuthz e cl args action w)) =
         events w @ [Call cl (authz_path action) (Some req)]"
proof -
  obtain err w1 where c: "rpc_Call e cl (authz_path action) (Some req) w = (err, w1)"
    by (cases "rpc_Call e cl (authz_path action) (Some req) w")
  then have "events w1 = events w @ [Call cl (authz_path action) (Some req)]"
    using events_rpc_Call [of e cl "authz_path action" "Some req" w] by simp
  moreover have "editAuthz e cl args action w = dieOnRPCError err [] w1"
    using assms c by (simp add: editAuthz_parsed)
  ultimately show ?thesis
    by (simp add: events_dieOnRPCError)
qed

lemma fatalln_eq:
  "fatalln v w = (Exit 2, w\<lparr>stderr := stderr w @ logbuf w @ Sprintln v, logbuf := []\<rparr>)"
  by (simp add: fatalln_def Fprintln_stderr_def copy_logbuf_def)

lemma Sprintln_1: "Sprintln [a] = a @ ''\<newline>''"
  by (simp add: Sprintln_def)

lemma Sprintln_2: "Sprintln [a, b] = a @ '' '' @ b @ ''\<newline>''"
  by (simp add: Sprintln_def)

lemma Sprintln_3: "Sprintln [a, b, c] = a @ '' '' @ b @ '' '' @ c @ ''\<newline>''"
  by (simp add: Sprintln_def)

lemma editAuthz_unknown:
  assumes "flags_Parse args = Inr [policy, tok]"
    and "splitAfter2 tok ''='' = Some (typ, data)"
    and "strings_ToUpper typ \<notin> {''TOKEN='', ''CN='', ''OU=''}"
  shows "editAuthz e cl args action w =
           (Exit 2, w\<lparr>stderr := stderr w @ ''unknown guard type '' @ typ @ ''\<newline>'' @ logbuf w
                                @ authz_usage action @ ''\<newline>'',
                       logbuf := []\<rparr>)"
proof -
  have "setGuard \<lparr>Policy = policy, GuardType = [], GuardData = Nil\<rparr> typ data = None"
    using assms(3) by (rule setGuard_None)
  then have "editAuthz e cl args action w =
      fatalln [authz_usage action] (Fprintln_stderr [''unknown guard type'', typ] w)"
    using assms(1,2) by (simp add: editAuthz_parsed)
  then show ?thesis
    by (simp add: fatalln_eq Fprintln_stderr_def Sprintln_1 Sprintln_2)
qed

lemma strings_Index_occurrence: "0 \<le> strings_Index (a @ t @ b) t"
proof (induction a)
  case Nil
  have p: "strings_HasPrefix (t @ b) t"
    by (simp add: strings_HasPrefix_def)
  show ?case
  proof (cases "t @ b")
    case Nil
    then show ?thesis by simp
  next
    case (Cons c s)
    with p have "strings_HasPrefix (c # s) t" by simp
    then have "strings_Index (c # s) t = 0" by simp
    with Cons show ?thesis by simp
  qed
next
  case (Cons c a)
  then show ?case
    by (simp add: Let_def)
qed

lemma strings_Contains_occurrence: "strings_Contains (a @ t @ b) t"
  by (simp add: strings_Contains_def strings_Index_occurrence)

lemma strings_Index_found:
  "0 \<le> strings_Index s t \<Longrightarrow> \<exists>a b. s = a @ t @ b"
proof (induction s)
  case Nil
  then have "t = []" by (simp split: if_splits)
  then show ?case by simp
next
  case (Cons c s)
  show ?case
  proof (cases "strings_HasPrefix (c # s) t")
    case True
    then have "c # s = [] @ t @ drop (length t) (c # s)"
      unfolding strings_HasPrefix_def by (metis append_Nil append_take_drop_id)
    then show ?thesis by blast
  next
    case False
    with Cons.prems have "0 \<le> strings_Index s t"
      by (simp add: Let_def split: if_splits)
    then obtain a b where "s = a @ t @ b"
      using Cons.IH by blast
    then have "c # s = (c # a) @ t @ b" by simp
    then show ?thesis by blast
  qed
qed

lemma strings_Contains_iff: "strings_Contains s t \<longleftrightarrow> (\<exists>a b. s = a @ t @ b)"
  using strings_Index_found [of s t] strings_Contains_occurrence [of _ t]
  by (auto simp: strings_Contains_def)

lemma splitAfter2_takeWhile:
  assumes "CHR ''='' \<in> set s"
  shows "splitAfter2 s ''='' =
           Some (takeWhile (\<lambda>c. c \<noteq> CHR ''='') s @ ''='', tl (dropWhile (\<lambda>c. c \<noteq> CHR ''='') s))"
proof -
  let ?p = "takeWhile (\<lambda>c. c \<noteq> CHR ''='') s"
  let ?r = "dropWhile (\<lambda>c. c \<noteq> CHR ''='') s"
  from assms have "?r \<noteq> []" by simp
  moreover have "hd ?r = CHR ''=''"
    using assms hd_dropWhile [of "\<lambda>c. c \<noteq> CHR ''=''" s] by auto
  ultimately have "?r = CHR ''='' # tl ?r"
    by (cases ?r) auto
  then have s: "s = ?p @ CHR ''='' # tl ?r"
    using takeWhile_dropWhile_id [of "\<lambda>c. c \<noteq> CHR ''=''" s] by metis
  have "CHR ''='' \<notin> set ?p"
    by (auto dest: set_takeWhileD)
  then have "splitAfter2 (?p @ CHR ''='' # tl ?r) ''='' = Some (?p @ ''='', tl ?r)"
    by (rule splitAfter2_first)
  with s show ?thesis
    by simp
qed

lemma splitAfter2_prefix:
  "\<exists>data. splitAfter2 tok ''='' =
      Some (if CHR ''='' \<in> set tok then takeWhile (\<lambda>c. c \<noteq> CHR ''='') tok @ ''='' else [], data)"
  using splitAfter2_takeWhile [of tok] splitAfter2_absent [of "CHR ''=''" tok]
  by (cases "CHR ''='' \<in> set tok") simp_all

text \<open>
  C6 (as the code has it): the prefix of a guard token is the token up to and including its
  first \<open>=\<close>, and the empty string when the token has no \<open>=\<close>. When that prefix, upper-cased,
  is none of \<open>TOKEN=\<close>, \<open>CN=\<close>, \<open>OU=\<close>, \<open>editAuthz\<close> prints \<open>unknown guard type\<close> followed by
  that prefix, then (after the buffered log) the usage line of the command, and the process
  exits with status 2; the error output contains that prefix.
\<close>

theorem unknown_guard_type_exits_2:
  assumes "flags_Parse args = Inr [policy, tok]"
  shows "\<exists>typ data. splitAfter2 tok ''='' = Some (typ, data) \<and>
           (if CHR ''='' \<in> set tok then takeWhile (\<lambda>c. c \<noteq> CHR ''='') tok @ ''=''
            else []) = typ \<and>
           (strings_ToUpper typ \<notin> {''TOKEN='', ''CN='', ''OU=''} \<longrightarrow>
              editAuthz e cl args action w =
                (Exit 2,
                 w\<lparr>stderr := stderr w @ ''unknown guard type '' @ typ @ ''\<newline>'' @ logbuf w
                              @ authz_usage action @ ''\<newline>'',
                     logbuf := []\<rparr>) \<and>
              strings_Contains (stderr (snd (editAuthz e cl args action w))) typ)"
proof -
  let ?pre = "if CHR ''='' \<in> set tok then takeWhile (\<lambda>c. c \<noteq> CHR ''='') tok @ ''='' else []"
  obtain dat where s: "splitAfter2 tok ''='' = Some (?pre, dat)"
    using splitAfter2_prefix [of tok] by blast
  have "editAuthz e cl args action w =
                (Exit 2,
                 w\<lparr>stderr := stderr w @ ''unknown guard type '' @ ?pre @ ''\<newline>'' @ logbuf w
                              @ authz_usage action @ ''\<newline>'',
                     logbuf := []\<rparr>) \<and>
        strings_Contains (stderr (snd (editAuthz e cl args action w))) ?pre"
    if u: "strings_ToUpper ?pre \<notin> {''TOKEN='', ''CN='', ''OU=''}"
  proof -
    have r: "editAuthz e cl args action w =
                (Exit 2,
                 w\<lparr>stderr := stderr w @ ''unknown guard type '' @ ?pre @ ''\<newline>'' @ logbuf w
                              @ authz_usage action @ ''\<newline>'',
                     logbuf := []\<rparr>)"
      using assms s u by (rule editAuthz_unknown)
    have "stderr (snd (editAuthz e cl args action w)) =
        (stderr w @ ''unknown guard type '') @ ?pre @
        (''\<newline>'' @ logbuf w @ authz_usage action @ ''\<newline>'')"
      unfolding r by simp
    then have "strings_Contains (stderr (snd (editAuthz e cl args action w))) ?pre"
      by (simp only: strings_Contains_occurrence)
    with r show ?thesis by blast
  qed
  with s show ?thesis
    by blast
qed

text \<open>
  C6 as stated, where the prefix of a token without \<open>=\<close> is the whole token, fails on the
  token \<open>admins\<close>: the process exits with status 2, but what is printed after
  \<open>unknown guard type\<close> is the empty prefix, and the error output does not contain \<open>admins\<close>.
\<close>

theorem unknown_guard_token_counterexample:
  "editAuthz sample_env sample_client [''policy-a'', ''admins''] ''grant'' sample_world =
     (Exit 2,
      sample_world\<lparr>stderr := ''unknown guard type \<newline>starting\<newline>usage: corectl grant [policy] [guard]\<newline>'',
                    logbuf := []\<rparr>) \<and>
   \<not> strings_Contains
       ''unknown guard type \<newline>starting\<newline>usage: corectl grant [policy] [guard]\<newline>''
       ''admins''"
proof -
  have p: "flags_Parse [''policy-a'', ''admins''] = Inr [''policy-a'', ''admins'']"
    by (simp add: flags_Parse_def)
  have "CHR ''='' \<notin> set ''admins''"
    by simp
  then have s: "splitAfter2 ''admins'' ''='' = Some ([], ''admins'')"
    by (rule splitAfter2_absent)
  have u: "strings_ToUpper [] \<notin> {''TOKEN='', ''CN='', ''OU=''}"
    by (simp add: strings_ToUpper_def)
  have "editAuthz sample_env sample_client [''policy-a'', ''admins''] ''grant'' sample_world =
     (Exit 2,
      sample_world\<lparr>stderr := ''unknown guard type \<newline>starting\<newline>usage: corectl grant [policy] [guard]\<newline>'',
                    logbuf := []\<rparr>)"
    using editAuthz_unknown [OF p s u, of sample_env sample_client "''grant''" sample_world]
    by (simp add: sample_world_def authz_usage_def)
  moreover have "\<not> strings_Contains
       ''unknown guard type \<newline>starting\<newline>usage: corectl grant [policy] [guard]\<newline>''
       ''admins''"
    by code_simp
  ultimately show ?thesis
    by blast
qed

text \<open>
  C5 (as the code has it): for a guard token with no \<open>=\<close>, \<open>splitAfter2\<close> returns the empty
  string as prefix and the whole token as value. The split itself does not fail; the empty
  prefix matches no guard type, so \<open>editAuthz\<close> takes the unknown-guard-type path and the
  process exits with status 2.
\<close>

theorem no_separator_prefix_empty:
  assumes "CHR ''='' \<notin> set tok"
  shows "splitAfter2 tok ''='' = Some ([], tok) \<and>
         setGuard req [] tok = None \<and>
         (flags_Parse args = Inr [policy, tok] \<longrightarrow>
            editAuthz e cl args action w =
              (Exit 2,
               w\<lparr>stderr := stderr w @ ''unknown guard type \<newline>'' @ logbuf w
                            @ authz_usage action @ ''\<newline>'',
                   logbuf := []\<rparr>))"
proof -
  have s: "splitAfter2 tok ''='' = Some ([], tok)"
    using assms by (rule splitAfter2_absent)
  have u: "strings_ToUpper [] \<notin> {''TOKEN='', ''CN='', ''OU=''}"
    by (simp add: strings_ToUpper_def)
  then have g: "setGuard req [] tok = None"
    by (rule setGuard_None)
  have "editAuthz e cl args action w =
              (Exit 2,
               w\<lparr>stderr := stderr w @ ''unknown guard type \<newline>'' @ logbuf w
                            @ authz_usage action @ ''\<newline>'',
                   logbuf := []\<rparr>)" if p: "flags_Parse args = Inr [policy, tok]"
    using editAuthz_unknown [OF p s u, of e cl action w] by simp
  with s g show ?thesis by blast
qed

text \<open>
  C5 as stated (the whole string as prefix, the value empty) fails on the token
  \<open>admins\<close>: the prefix is empty and the value is \<open>admins\<close>.
\<close>

theorem no_separator_counterexample:
  "splitAfter2 ''admins'' ''='' = Some ([], ''admins'') \<and>
   splitAfter2 ''admins'' ''='' \<noteq> Some (''admins'', [])"
proof -
  have "CHR ''='' \<notin> set ''admins''" by simp
  then have "splitAfter2 ''admins'' ''='' = Some ([], ''admins'')"
    by (rule splitAfter2_absent)
  then show ?thesis by simp
qed

text \<open>
  C1: for a guard token \<open>prefix=value\<close> whose prefix is \<open>token\<close>, \<open>CN\<close> or \<open>OU\<close> in any
  mix of cases, the split gives \<open>prefix=\<close> and \<open>value\<close>, and the request that \<open>editAuthz\<close>
  sends has guard type \<open>access_token\<close> and data \<open>{id: value}\<close> for \<open>TOKEN\<close>, guard type
  \<open>x509\<close> and data \<open>{subject: {CN: value}}\<close> for \<open>CN\<close>, and \<open>{subject: {OU: value}}\<close> for
  \<open>OU\<close>. The value is passed on unchanged, whatever it is; it may be empty.
\<close>

theorem guard_codec_recognised_prefix:
  assumes "strings_ToUpper p \<in> {''TOKEN'', ''CN'', ''OU''}"
    and "flags_Parse args = Inr [policy, p @ ''='' @ v]"
  shows "splitAfter2 (p @ ''='' @ v) ''='' = Some (p @ ''='', v) \<and>
    (\<exists>req. events (snd (editAuthz e cl args action w)) =
              events w @ [Call cl (authz_path action) (Some req)] \<and>
       Policy req = policy \<and>
       (strings_ToUpper p = ''TOKEN'' \<longrightarrow>
          GuardType req = ''access_token'' \<and> GuardData req = Map [(''id'', Str v)]) \<and>
       (strings_ToUpper p = ''CN'' \<longrightarrow>
          GuardType req = ''x509'' \<and> GuardData req = Map [(''subject'', StrMap [(''CN'', v)])]) \<and>
       (strings_ToUpper p = ''OU'' \<longrightarrow>
          GuardType req = ''x509'' \<and> GuardData req = Map [(''subject'', StrMap [(''OU'', v)])]))"
proof -
  let ?r = "\<lparr>Policy = policy, GuardType = [], GuardData = Nil\<rparr>"
  have "CHR ''='' \<notin> set p"
    using assms(1) by (rule ToUpper_no_separator)
  then have s: "splitAfter2 (p @ ''='' @ v) ''='' = Some (p @ ''='', v)"
    by (rule splitAfter2_guard_token)
  from assms(1) consider "strings_ToUpper p = ''TOKEN''" | "strings_ToUpper p = ''CN''"
    | "strings_ToUpper p = ''OU''"
    by auto
  then show ?thesis
  proof cases
    case 1
    from editAuthz_sends [OF assms(2) s setGuard_TOKEN [OF 1, of ?r v], of e cl action w] 1 s
    show ?thesis by simp
  next
    case 2
    from editAuthz_sends [OF assms(2) s setGuard_CN [OF 2, of ?r v], of e cl action w] 2 s
    show ?thesis by simp
  next
    case 3
    from editAuthz_sends [OF assms(2) s setGuard_OU [OF 3, of ?r v], of e cl action w] 3 s
    show ?thesis by simp
  qed
qed

theorem unknown_guard_type_exits_2_witness:
  "flags_Parse [''policy-a'', ''role=admin''] = Inr [''policy-a'', ''role=admin''] \<and>
   splitAfter2 ''role=admin'' ''='' = Some (''role='', ''admin'') \<and>
   strings_ToUpper ''role='' \<notin> {''TOKEN='', ''CN='', ''OU=''} \<and>
   editAuthz sample_env sample_client [''policy-a'', ''role=admin''] ''grant'' sample_world =
     (Exit 2,
      sample_world\<lparr>stderr := ''unknown guard type role=\<newline>starting\<newline>usage: corectl grant [policy] [guard]\<newline>'',
                    logbuf := []\<rparr>) \<and>
   strings_Contains
     (stderr (snd (editAuthz sample_env sample_client [''policy-a'', ''role=admin''] ''grant''
                     sample_world)))
     ''role=''"
proof -
  have p: "flags_Parse [''policy-a'', ''role=admin''] = Inr [''policy-a'', ''role=admin'']"
    by (simp add: flags_Parse_def)
  have s: "splitAfter2 ''role=admin'' ''='' = Some (''role='', ''admin'')"
    by code_simp
  have u: "strings_ToUpper ''role='' \<notin> {''TOKEN='', ''CN='', ''OU=''}"
    by (simp add: strings_ToUpper_def toUpper_byte_def)
  from unknown_guard_type_exits_2 [OF p, of sample_env sample_client "''grant''" sample_world] s u
  have "editAuthz sample_env sample_client [''policy-a'', ''role=admin''] ''grant'' sample_world =
     (Exit 2,
      sample_world\<lparr>stderr := stderr sample_world @ ''unknown guard type '' @ ''role='' @ ''\<newline>''
                       @ logbuf sample_world @ authz_usage ''grant'' @ ''\<newline>'',
                    logbuf := []\<rparr>) \<and>
    strings_Contains
     (stderr (snd (editAuthz sample_env sample_client [''policy-a'', ''role=admin''] ''grant''
                     sample_world)))
     ''role=''"
    by auto
  then have h: "editAuthz sample_env sample_client [''policy-a'', ''role=admin''] ''grant''
        sample_world =
     (Exit 2,
      sample_world\<lparr>stderr := stderr sample_world @ ''unknown guard type '' @ ''role='' @ ''\<newline>''
                       @ logbuf sample_world @ authz_usage ''grant'' @ ''\<newline>'',
                    logbuf := []\<rparr>)"
    and b: "strings_Contains
     (stderr (snd (editAuthz sample_env sample_client [''policy-a'', ''role=admin''] ''grant''
                     sample_world)))
     ''role=''"
    by blast+
  from h have a: "editAuthz sample_env sample_client [''policy-a'', ''role=admin''] ''grant''
        sample_world =
     (Exit 2,
      sample_world\<lparr>stderr := ''unknown guard type role=\<newline>starting\<newline>usage: corectl grant [policy] [guard]\<newline>'',
                    logbuf := []\<rparr>)"
    by (simp add: sample_world_def authz_usage_def)
  from p s u a b show ?thesis
    by (intro conjI)
qed

theorem guard_codec_recognised_prefix_witness:
  "strings_ToUpper ''toKen'' \<in> {''TOKEN'', ''CN'', ''OU''} \<and>
   flags_Parse [''policy-a'', ''toKen=''] = Inr [''policy-a'', ''toKen=''] \<and>
   splitAfter2 ''toKen='' ''='' = Some (''toKen='', []) \<and>
   events (snd (editAuthz sample_env sample_client [''policy-a'', ''toKen=''] ''revoke''
                  sample_world)) =
     [Call sample_client ''/delete-authorization-grant''
        (Some \<lparr>Policy = ''policy-a'', GuardType = ''access_token'',
                GuardData = Map [(''id'', Str [])]\<rparr>)]"
proof -
  have u: "strings_ToUpper ''toKen'' = ''TOKEN''"
    by code_simp
  then have m: "strings_ToUpper ''toKen'' \<in> {''TOKEN'', ''CN'', ''OU''}"
    by simp
  have p: "flags_Parse [''policy-a'', ''toKen=''] = Inr [''policy-a'', ''toKen'' @ ''='' @ []]"
    by (simp add: flags_Parse_def)
  have a: "authz_path ''revoke'' = ''/delete-authorization-grant''"
    by (simp add: authz_path_def)
  from guard_codec_recognised_prefix [OF m p, of sample_env sample_client "''revoke''" sample_world]
  obtain req where
    s: "splitAfter2 (''toKen'' @ ''='' @ []) ''='' = Some (''toKen'' @ ''='', [])" and
    ev: "events (snd (editAuthz sample_env sample_client [''policy-a'', ''toKen='']
                ''revoke'' sample_world)) =
         events sample_world @ [Call sample_client (authz_path ''revoke'') (Some req)]" and
    r: "Policy req = ''policy-a''" "GuardType req = ''access_token''"
       "GuardData req = Map [(''id'', Str [])]"
    using u by auto
  from r have "req = \<lparr>Policy = ''policy-a'', GuardType = ''access_token'',
                GuardData = Map [(''id'', Str [])]\<rparr>"
    by (cases req) simp
  with ev a s m p show ?thesis
    by (simp add: sample_world_def)
qed

theorem no_separator_prefix_empty_witness:
  "CHR ''='' \<notin> set ''admins'' \<and>
   splitAfter2 ''admins'' ''='' = Some ([], ''admins'') \<and>
   flags_Parse [''policy-a'', ''admins''] = Inr [''policy-a'', ''admins''] \<and>
   editAuthz sample_env sample_client [''policy-a'', ''admins''] ''grant'' sample_world =
     (Exit 2,
      sample_world\<lparr>stderr := ''unknown guard type \<newline>starting\<newline>usage: corectl grant [policy] [guard]\<newline>'',
                    logbuf := []\<rparr>)"
proof -
  have n: "CHR ''='' \<notin> set ''admins''"
    by simp
  have p: "flags_Parse [''policy-a'', ''admins''] = Inr [''policy-a'', ''admins'']"
    by (simp add: flags_Parse_def)
  from no_separator_prefix_empty [OF n, of undefined "[''policy-a'', ''admins'']" "''policy-a''"
      sample_env sample_client "''grant''" sample_world] n p
  show ?thesis
    by (simp add: sample_world_def authz_usage_def)
qed

lemma setGuard_consistent:
  "setGuard req typ data = Some r \<Longrightarrow>
   guard_consistent r \<and> GuardType r \<in> {''access_token'', ''x509''}"
  by (auto simp: setGuard_def guard_consistent_def Let_def split: if_splits)

lemma events_fatalln: "events (snd (fatalln v w)) = events w"
  by (simp add: fatalln_def Fprintln_stderr_def copy_logbuf_def)

lemma events_flags_Usage: "events (snd (flags_Usage u w)) = events w"
  by (simp add: flags_Usage_def Fprintln_stderr_def)

lemma events_Fprintln_stderr: "events (Fprintln_stderr v w) = events w"
  by (simp add: Fprintln_stderr_def)

lemma editAuthz_events:
  "events (snd (editAuthz e cl args action w)) = events w \<or>
   (\<exists>req. events (snd (editAuthz e cl args action w)) =
            events w @ [Call cl (authz_path action) (Some req)] \<and>
          guard_consistent req \<and> GuardType req \<in> {''access_token'', ''x509''})"
proof (cases "flags_Parse args")
  case (Inl msg)
  then show ?thesis
    by (simp add: editAuthz_def events_flags_Usage events_Fprintln_stderr split: option.splits)
next
  case (Inr as)
  show ?thesis
  proof (cases "length as = 2")
    case False
    with Inr show ?thesis
      by (simp add: editAuthz_def events_fatalln)
  next
    case True
    then obtain policy tok where as: "as = [policy, tok]"
      by (cases as; cases "tl as") auto
    obtain ty dat where s: "splitAfter2 tok ''='' = Some (ty, dat)"
      using splitAfter2_total [of tok] by blast
    let ?r = "\<lparr>Policy = policy, GuardType = [], GuardData = Nil\<rparr>"
    show ?thesis
    proof (cases "setGuard ?r ty dat")
      case None
      with Inr as s show ?thesis
        by (simp add: editAuthz_parsed events_fatalln events_Fprintln_stderr)
    next
      case (Some req)
      from Inr as have p: "flags_Parse args = Inr [policy, tok]"
        by simp
      from editAuthz_sends [OF p s Some, of e cl action w] setGuard_consistent [OF Some]
      show ?thesis by blast
    qed
  qed
qed

text \<open>
  C9: every request that \<open>editAuthz\<close> sends has guard type \<open>access_token\<close> exactly when its
  guard data has the shape \<open>{id: string}\<close>, and guard type \<open>x509\<close> exactly when its guard
  data has the shape \<open>{subject: {CN or OU: string}}\<close>; its guard type is one of the two.
\<close>

theorem sent_requests_consistent:
  "\<exists>evs. events (snd (editAuthz e cl args action w)) = events w @ evs \<and>
     (\<forall>c path req. Call c path (Some req) \<in> set evs \<longrightarrow>
        guard_consistent req \<and> GuardType req \<in> {''access_token'', ''x509''})"
  using editAuthz_events [of e cl args action w] by auto

theorem sent_requests_consistent_witness:
  "Call sample_client ''/create-authorization-grant''
     (Some \<lparr>Policy = ''policy-a'', GuardType = ''x509'',
             GuardData = Map [(''subject'', StrMap [(''OU'', ''ops'')])]\<rparr>)
     \<in> set (events (snd (editAuthz sample_env sample_client [''policy-a'', ''OU=ops''] ''grant''
                            sample_world))) \<and>
   guard_consistent \<lparr>Policy = ''policy-a'', GuardType = ''x509'',
                     GuardData = Map [(''subject'', StrMap [(''OU'', ''ops'')])]\<rparr>"
proof -
  let ?req = "\<lparr>Policy = ''policy-a'', GuardType = ''x509'',
               GuardData = Map [(''subject'', StrMap [(''OU'', ''ops'')])]\<rparr>"
  let ?run = "editAuthz sample_env sample_client [''policy-a'', ''OU=ops''] ''grant'' sample_world"
  have p: "flags_Parse [''policy-a'', ''OU=ops''] = Inr [''policy-a'', ''OU=ops'']"
    by (simp add: flags_Parse_def)
  have s: "splitAfter2 ''OU=ops'' ''='' = Some (''OU='', ''ops'')"
    by code_simp
  have g: "setGuard \<lparr>Policy = ''policy-a'', GuardType = [], GuardData = Nil\<rparr> ''OU='' ''ops''
             = Some ?req"
    by code_simp
  have a: "authz_path ''grant'' = ''/create-authorization-grant''"
    by (simp add: authz_path_def)
  have ev: "events (snd ?run) =
      events sample_world @ [Call sample_client ''/create-authorization-grant'' (Some ?req)]"
    using editAuthz_sends [OF p s g, of sample_env sample_client "''grant''" sample_world] a
    by simp
  from sent_requests_consistent
    [of sample_env sample_client "[''policy-a'', ''OU=ops'']" "''grant''" sample_world]
  obtain evs where e1: "events (snd ?run) = events sample_world @ evs"
    and e2: "\<forall>c path req. Call c path (Some req) \<in> set evs \<longrightarrow> guard_consistent req"
    by blast
  from ev e1 have "evs = [Call sample_client ''/create-authorization-grant'' (Some ?req)]"
    by simp
  with e2 have "guard_consistent ?req"
    by simp
  with ev show ?thesis
    by simp
qed

lemma marshal_scenario_grant:
  \<open>marshal_grantReq \<lparr>Policy = ''policy-a'', GuardType = ''x509'',
       GuardData = Map [(''subject'', StrMap [(''CN'', ''Org Admins'')])]\<rparr> =
   Some ''{"policy":"policy-a","guard_type":"x509","guard_data":{"subject":{"CN":"Org Admins"}}}''\<close>
  by code_simp

lemma marshal_scenario_revoke:
  \<open>marshal_grantReq \<lparr>Policy = ''policy-a'', GuardType = ''access_token'',
       GuardData = Map [(''id'', Str ''abc123'')]\<rparr> =
   Some ''{"policy":"policy-a","guard_type":"access_token","guard_data":{"id":"abc123"}}''\<close>
  by code_simp

lemma grant_scenario_events:
  "events (snd (grant e cl [''policy-a'', ''CN=Org Admins''] w)) =
     events w @ [Call cl ''/create-authorization-grant''
       (Some \<lparr>Policy = ''policy-a'', GuardType = ''x509'',
               GuardData = Map [(''subject'', StrMap [(''CN'', ''Org Admins'')])]\<rparr>)]"
proof -
  have p: "flags_Parse [''policy-a'', ''CN=Org Admins''] = Inr [''policy-a'', ''CN=Org Admins'']"
    by (simp add: flags_Parse_def)
  have s: "splitAfter2 ''CN=Org Admins'' ''='' = Some (''CN='', ''Org Admins'')"
    by code_simp
  have g: "setGuard \<lparr>Policy = ''policy-a'', GuardType = [], GuardData = Nil\<rparr> ''CN=''
             ''Org Admins'' =
           Some \<lparr>Policy = ''policy-a'', GuardType = ''x509'',
                  GuardData = Map [(''subject'', StrMap [(''CN'', ''Org Admins'')])]\<rparr>"
    by code_simp
  have a: "authz_path ''grant'' = ''/create-authorization-grant''"
    by (simp add: authz_path_def)
  show ?thesis
    unfolding grant_def using editAuthz_sends [OF p s g, of e cl "''grant''" w] a by simp
qed

lemma revoke_scenario_events:
  "events (snd (revoke e cl [''policy-a'', ''token=abc123''] w)) =
     events w @ [Call cl ''/delete-authorization-grant''
       (Some \<lparr>Policy = ''policy-a'', GuardType = ''access_token'',
               GuardData = Map [(''id'', Str ''abc123'')]\<rparr>)]"
proof -
  have p: "flags_Parse [''policy-a'', ''token=abc123''] = Inr [''policy-a'', ''token=abc123'']"
    by (simp add: flags_Parse_def)
  have s: "splitAfter2 ''token=abc123'' ''='' = Some (''token='', ''abc123'')"
    by code_simp
  have g: "setGuard \<lparr>Policy = ''policy-a'', GuardType = [], GuardData = Nil\<rparr> ''token=''
             ''abc123'' =
           Some \<lparr>Policy = ''policy-a'', GuardType = ''access_token'',
                  GuardData = Map [(''id'', Str ''abc123'')]\<rparr>"
    by code_simp
  have a: "authz_path ''revoke'' = ''/delete-authorization-grant''"
    by (simp add: authz_path_def)
  show ?thesis
    unfolding revoke_def using editAuthz_sends [OF p s g, of e cl "''revoke''" w] a by simp
qed

text \<open>
  C8: \<open>grant\<close> with the arguments \<open>policy-a\<close> and \<open>CN=Org Admins\<close> calls the path
  \<open>/create-authorization-grant\<close> with a request whose JSON body is
  \<open>{"policy":"policy-a","guard_type":"x509","guard_data":{"subject":{"CN":"Org Admins"}}}\<close>,
  and \<open>revoke\<close> with \<open>policy-a\<close> and \<open>token=abc123\<close> calls \<open>/delete-authorization-grant\<close>
  with the body \<open>{"policy":"policy-a","guard_type":"access_token","guard_data":{"id":"abc123"}}\<close>.
\<close>

theorem grant_revoke_scenarios:
  \<open>events (snd (grant e cl [''policy-a'', ''CN=Org Admins''] w)) =
     events w @ [Call cl ''/create-authorization-grant''
       (Some \<lparr>Policy = ''policy-a'', GuardType = ''x509'',
               GuardData = Map [(''subject'', StrMap [(''CN'', ''Org Admins'')])]\<rparr>)] \<and>
   marshal_grantReq \<lparr>Policy = ''policy-a'', GuardType = ''x509'',
       GuardData = Map [(''subject'', StrMap [(''CN'', ''Org Admins'')])]\<rparr> =
     Some ''{"policy":"policy-a","guard_type":"x509","guard_data":{"subject":{"CN":"Org Admins"}}}'' \<and>
   events (snd (revoke e cl [''policy-a'', ''token=abc123''] w)) =
     events w @ [Call cl ''/delete-authorization-grant''
       (Some \<lparr>Policy = ''policy-a'', GuardType = ''access_token'',
               GuardData = Map [(''id'', Str ''abc123'')]\<rparr>)] \<and>
   marshal_grantReq \<lparr>Policy = ''policy-a'', GuardType = ''access_token'',
       GuardData = Map [(''id'', Str ''abc123'')]\<rparr> =
     Some ''{"policy":"policy-a","guard_type":"access_token","guard_data":{"id":"abc123"}}''\<close>
  using grant_scenario_events [of e cl w] revoke_scenario_events [of e cl w]
    marshal_scenario_grant marshal_scenario_revoke
  by blast

theorem grant_revoke_scenarios_witness:
  \<open>events (snd (grant sample_env sample_client [''policy-a'', ''CN=Org Admins''] sample_world)) =
     [Call sample_client ''/create-authorization-grant''
       (Some \<lparr>Policy = ''policy-a'', GuardType = ''x509'',
               GuardData = Map [(''subject'', StrMap [(''CN'', ''Org Admins'')])]\<rparr>)] \<and>
   events (snd (revoke sample_env sample_client [''policy-a'', ''token=abc123''] sample_world)) =
     [Call sample_client ''/delete-authorization-grant''
       (Some \<lparr>Policy = ''policy-a'', GuardType = ''access_token'',
               GuardData = Map [(''id'', Str ''abc123'')]\<rparr>)]\<close>
  using grant_revoke_scenarios [of sample_env sample_client sample_world]
  by (simp add: sample_world_def)

text \<open>
  C4: \<open>dieOnRPCError\<close> with a nil error returns and leaves the whole state as it is (the log
  buffer is not written out, nothing goes to standard error). With a non-nil error it writes
  the buffered log to standard error and empties the buffer, then prints the chain code, the
  message and, when it is not empty, the detail if the root of the error is a status error
  that carries error data, and the error itself otherwise; the process exits with status 2.
\<close>

theorem dieOnRPCError_behaviour:
  "dieOnRPCError None prefixes w = (Return (), w) \<and>
   (\<forall>er. dieOnRPCError (Some er) prefixes w =
      (Exit 2,
       w\<lparr>stderr := stderr w @ logbuf w @
            (if prefixes = [] then [] else Sprintln prefixes) @
            (case Root er of
               Some msgErr \<Rightarrow>
                 (case ErrorData msgErr of
                    Some d \<Rightarrow>
                      ''RPC error: '' @ ChainCode d @ '' '' @ Message d @ ''\<newline>'' @
                      (if Detail d = [] then [] else ''Detail: '' @ Detail d @ ''\<newline>'')
                  | None \<Rightarrow> ''RPC error: '' @ Error er @ ''\<newline>'')
             | None \<Rightarrow> ''RPC error: '' @ Error er @ ''\<newline>''),
          logbuf := []\<rparr>))"
  by (simp add: dieOnRPCError_def Let_def copy_logbuf_def Fprintln_stderr_def Sprintln_2 Sprintln_3
      split: option.splits)

section \<open>Properties of wait, the error reporter, the dispatcher and the bootstrap\<close>

lemma rpc_Call_info:
  "rpc_Call e cl ''/info'' None w =
     (reply_err (respond e (num_calls (events w))), wait_outcome e cl w 0)"
  by (simp add: rpc_Call_def wait_outcome_def Let_def)

lemma wait_loop_done:
  assumes "probe_done (reply_err (respond e (num_calls (events w))))"
  shows "wait_loop e cl w = Some (wait_outcome e cl w 0)"
  using assms
  by (subst wait_loop.simps) (auto simp: rpc_Call_info probe_done_def split: option.splits)

lemma wait_loop_retry:
  assumes "\<not> probe_done (reply_err (respond e (num_calls (events w))))"
  shows "wait_loop e cl w = wait_loop e cl (time_Sleep 500 (wait_outcome e cl w 0))"
  using assms
  by (subst wait_loop.simps) (auto simp: rpc_Call_info probe_done_def split: option.splits)

lemma num_calls_after_retry:
  "num_calls (events (time_Sleep 500 (wait_outcome e cl w 0))) = Suc (num_calls (events w))"
  by (simp add: time_Sleep_def wait_outcome_def num_calls_def)

lemma wait_outcome_Suc:
  "wait_outcome e cl (time_Sleep 500 (wait_outcome e cl w 0)) N = wait_outcome e cl w (Suc N)"
proof -
  let ?n = "num_calls (events w)"
  have "[?n ..< ?n + Suc N + 1] = ?n # [Suc ?n ..< Suc ?n + N + 1]"
    by (simp add: upt_conv_Cons)
  then show ?thesis
    unfolding wait_outcome_def [of e cl _ N] wait_outcome_def [of e cl w "Suc N"]
      num_calls_after_retry
    by (simp add: wait_outcome_def time_Sleep_def)
qed

lemma wait_loop_stops_at:
  assumes "\<forall>i<N. \<not> probe_done (reply_err (respond e (num_calls (events w) + i)))"
    and "probe_done (reply_err (respond e (num_calls (events w) + N)))"
  shows "wait_loop e cl w = Some (wait_outcome e cl w N)"
  using assms
proof (induction N arbitrary: w)
  case 0
  then show ?case by (simp add: wait_loop_done)
next
  case (Suc N)
  let ?w = "time_Sleep 500 (wait_outcome e cl w 0)"
  from Suc.prems(1) have "\<not> probe_done (reply_err (respond e (num_calls (events w))))"
    by (metis add.right_neutral zero_less_Suc)
  then have r: "wait_loop e cl w = wait_loop e cl ?w"
    by (rule wait_loop_retry)
  have "\<forall>i<N. \<not> probe_done (reply_err (respond e (num_calls (events ?w) + i)))"
  proof (intro allI impI)
    fix i assume "i < N"
    then have "Suc i < Suc N" by simp
    with Suc.prems(1)
    have "\<not> probe_done (reply_err (respond e (num_calls (events w) + Suc i)))"
      by blast
    then show "\<not> probe_done (reply_err (respond e (num_calls (events ?w) + i)))"
      by (simp add: num_calls_after_retry)
  qed
  moreover have "probe_done (reply_err (respond e (num_calls (events ?w) + N)))"
    using Suc.prems(2) by (simp add: num_calls_after_retry)
  ultimately have "wait_loop e cl ?w = Some (wait_outcome e cl ?w N)"
    by (rule Suc.IH)
  with r show ?case
    by (simp add: wait_outcome_Suc)
qed

lemma wait_loop_Some:
  assumes "wait_loop e cl w = Some w'"
  shows "\<exists>N. (\<forall>i<N. \<not> probe_done (reply_err (respond e (num_calls (events w) + i)))) \<and>
              probe_done (reply_err (respond e (num_calls (events w) + N))) \<and>
              w' = wait_outcome e cl w N"
proof (rule wait_loop.raw_induct [where P = "\<lambda>e cl w w'.
    \<exists>N. (\<forall>i<N. \<not> probe_done (reply_err (respond e (num_calls (events w) + i)))) \<and>
        probe_done (reply_err (respond e (num_calls (events w) + N))) \<and>
        w' = wait_outcome e cl w N"], goal_cases)
  case 2
  show ?case by (rule assms)
next
  case (1 loop e cl w w')
  show ?case
  proof (cases "probe_done (reply_err (respond e (num_calls (events w))))")
    case True
    with 1(2) have "w' = wait_outcome e cl w 0"
      by (auto simp: rpc_Call_info probe_done_def split: option.splits if_splits)
    with True show ?thesis
      by (intro exI [of _ 0]) simp
  next
    case False
    let ?w = "time_Sleep 500 (wait_outcome e cl w 0)"
    from False 1(2) have "loop e cl ?w = Some w'"
      by (auto simp: rpc_Call_info probe_done_def split: option.splits if_splits)
    then obtain N where
      n: "\<forall>i<N. \<not> probe_done (reply_err (respond e (num_calls (events ?w) + i)))"
        "probe_done (reply_err (respond e (num_calls (events ?w) + N)))"
        "w' = wait_outcome e cl ?w N"
      using 1(1) by blast
    have "\<forall>i<Suc N. \<not> probe_done (reply_err (respond e (num_calls (events w) + i)))"
    proof (intro allI impI)
      fix i assume "i < Suc N"
      show "\<not> probe_done (reply_err (respond e (num_calls (events w) + i)))"
      proof (cases i)
        case 0
        with False show ?thesis by simp
      next
        case (Suc j)
        with \<open>i < Suc N\<close> n(1) show ?thesis
          by (simp add: num_calls_after_retry)
      qed
    qed
    moreover have "probe_done (reply_err (respond e (num_calls (events w) + Suc N)))"
      using n(2) by (simp add: num_calls_after_retry)
    moreover have "w' = wait_outcome e cl w (Suc N)"
      using n(3) by (simp add: wait_outcome_Suc)
    ultimately show ?thesis
      by blast
  qed
qed

lemma num_calls_wait_events: "num_calls (wait_events cl N) = N + 1"
  by (induction N) (simp_all add: num_calls_def)

lemma sleeps_wait_events: "filter (\<lambda>ev. \<not> is_Call ev) (wait_events cl N) = replicate N (Sleep 500)"
  by (induction N) simp_all

lemma three_digit_class:
  assumes "100 \<le> c" "c \<le> 999"
  shows "leading_digit (nat c) = nat (c sdiv 100)"
proof -
  have "c sdiv 100 = c div 100"
    using assms by (simp add: signed_divide_int_def sgn_if)
  moreover have "leading_digit (nat c) = nat c div 100"
  proof -
    have a: "\<not> nat c < 10" "\<not> nat c div 10 < 10" "nat c div 10 div 10 < 10"
      using assms by auto
    have "leading_digit (nat c) = leading_digit (nat c div 10)"
      using a(1) by (subst leading_digit.simps) simp
    also have "\<dots> = leading_digit (nat c div 10 div 10)"
      using a(2) by (subst leading_digit.simps) simp
    also have "\<dots> = nat c div 10 div 10"
      using a(3) by (subst leading_digit.simps) simp
    also have "\<dots> = nat c div 100"
      by (simp add: div_mult2_eq [symmetric])
    finally show ?thesis .
  qed
  moreover have "nat (c div 100) = nat c div 100"
    using assms by (simp add: nat_div_distrib)
  ultimately show ?thesis by simp
qed

lemma wait_returns_iff:
  "wait e cl [] w = Some (Return (), w') \<longleftrightarrow>
     (\<exists>N. (\<forall>i<N. \<not> probe_done (reply_err (respond e (num_calls (events w) + i)))) \<and>
          probe_done (reply_err (respond e (num_calls (events w) + N))) \<and>
          w' = wait_outcome e cl w N)"
proof
  assume "wait e cl [] w = Some (Return (), w')"
  then have "wait_loop e cl w = Some w'"
    by (auto simp: wait_def)
  then show "\<exists>N. (\<forall>i<N. \<not> probe_done (reply_err (respond e (num_calls (events w) + i)))) \<and>
          probe_done (reply_err (respond e (num_calls (events w) + N))) \<and>
          w' = wait_outcome e cl w N"
    by (rule wait_loop_Some)
next
  assume "\<exists>N. (\<forall>i<N. \<not> probe_done (reply_err (respond e (num_calls (events w) + i)))) \<and>
          probe_done (reply_err (respond e (num_calls (events w) + N))) \<and>
          w' = wait_outcome e cl w N"
  then obtain N where
    "\<forall>i<N. \<not> probe_done (reply_err (respond e (num_calls (events w) + i)))"
    "probe_done (reply_err (respond e (num_calls (events w) + N)))"
    and w': "w' = wait_outcome e cl w N"
    by blast
  then have "wait_loop e cl w = Some (wait_outcome e cl w N)"
    by (intro wait_loop_stops_at)
  with w' show "wait e cl [] w = Some (Return (), w')"
    by (simp add: wait_def)
qed

lemma server_error_not_done: "server_error err \<Longrightarrow> \<not> probe_done err"
  by (auto simp: server_error_def probe_done_def split: option.splits)

lemma probe_done_None: "probe_done None"
  by (simp add: probe_done_def)

lemma wait_after_server_errors:
  assumes "\<forall>i<N. server_error (reply_err (respond e (num_calls (events w) + i)))"
    and "reply_err (respond e (num_calls (events w) + N)) = None"
  shows "wait e cl [] w = Some (Return (), wait_outcome e cl w N)"
proof -
  from assms(1)
  have "\<forall>i<N. \<not> probe_done (reply_err (respond e (num_calls (events w) + i)))"
    by (simp add: server_error_not_done)
  moreover from assms(2)
  have "probe_done (reply_err (respond e (num_calls (events w) + N)))"
    by (simp add: probe_done_None)
  ultimately have "wait_loop e cl w = Some (wait_outcome e cl w N)"
    by (rule wait_loop_stops_at)
  then show ?thesis
    by (simp add: wait_def)
qed

text \<open>
  C3: \<open>wait\<close> returns exactly when some probe of \<open>/info\<close> is done, that is, has no error or
  has a status error whose status is not in the class 5xx (for a three-digit status: whose
  leading digit is not 5, see \<open>three_digit_class\<close>). Every probe before the first such one
  (a transport error or a 5xx status) is followed by a sleep of 500 ms and another probe, for
  any number of probes; if no probe is ever done, \<open>wait\<close> does not return. In particular,
  for every \<open>N\<close>, if the first \<open>N\<close> probes fail with a 5xx status and probe \<open>N + 1\<close>
  succeeds, the loop makes exactly \<open>N + 1\<close> probes, with one sleep of 500 ms between
  consecutive probes.
\<close>

theorem wait_probes_until_done:
  "(wait e cl [] w = Some (Return (), w') \<longleftrightarrow>
     (\<exists>N. (\<forall>i<N. \<not> probe_done (reply_err (respond e (num_calls (events w) + i)))) \<and>
          probe_done (reply_err (respond e (num_calls (events w) + N))) \<and>
          w' = wait_outcome e cl w N)) \<and>
   (\<forall>N. (\<forall>i<N. server_error (reply_err (respond e (num_calls (events w) + i)))) \<and>
        reply_err (respond e (num_calls (events w) + N)) = None \<longrightarrow>
        wait e cl [] w = Some (Return (), wait_outcome e cl w N)) \<and>
   (\<forall>N. num_calls (wait_events cl N) = N + 1 \<and>
        filter (\<lambda>ev. \<not> is_Call ev) (wait_events cl N) = replicate N (Sleep 500))"
  using wait_returns_iff [of e cl w w'] wait_after_server_errors [of _ e w cl]
    num_calls_wait_events [of cl] sleeps_wait_events [of cl]
  by blast

theorem wait_probes_until_done_witness:
  "server_error (reply_err (respond flaky_env 0)) \<and>
   server_error (reply_err (respond flaky_env 1)) \<and>
   server_error (reply_err (respond flaky_env 2)) \<and>
   reply_err (respond flaky_env 3) = None \<and>
   wait flaky_env sample_client [] sample_world =
     Some (Return (),
           sample_world\<lparr>events :=
             [Call sample_client ''/info'' None, Sleep 500,
              Call sample_client ''/info'' None, Sleep 500,
              Call sample_client ''/info'' None, Sleep 500,
              Call sample_client ''/info'' None]\<rparr>)"
proof -
  have n: "num_calls (events sample_world) = 0"
    by (simp add: sample_world_def num_calls_def)
  have a: "\<forall>i<3. server_error (reply_err (respond flaky_env (num_calls (events sample_world) + i)))"
    by (simp add: n flaky_env_def server_error_def signed_divide_int_def)
  have b: "reply_err (respond flaky_env (num_calls (events sample_world) + 3)) = None"
    by (simp add: n flaky_env_def)
  have c: "wait_outcome flaky_env sample_client sample_world 3 =
      sample_world\<lparr>events :=
             [Call sample_client ''/info'' None, Sleep 500,
              Call sample_client ''/info'' None, Sleep 500,
              Call sample_client ''/info'' None, Sleep 500,
              Call sample_client ''/info'' None]\<rparr>"
    by (simp add: wait_outcome_def n flaky_env_def sample_world_def eval_nat_numeral upt_rec)
  from wait_probes_until_done [of flaky_env sample_client sample_world sample_world] a b
  have "wait flaky_env sample_client [] sample_world =
      Some (Return (), wait_outcome flaky_env sample_client sample_world 3)"
    by blast
  moreover have "server_error (reply_err (respond flaky_env 0))"
    "server_error (reply_err (respond flaky_env 1))"
    "server_error (reply_err (respond flaky_env 2))"
    "reply_err (respond flaky_env 3) = None"
    by (simp_all add: flaky_env_def server_error_def signed_divide_int_def)
  ultimately show ?thesis
    using c by simp
qed

theorem dieOnRPCError_behaviour_witness:
  "dieOnRPCError None [] sample_world = (Return (), sample_world) \<and>
   dieOnRPCError
     (Some \<lparr>Error = ''400 Bad Request'',
             Root = Some \<lparr>StatusCode = 400,
                           ErrorData = Some \<lparr>ChainCode = ''CH003'',
                                               Message = ''Invalid request body'',
                                               Detail = ''missing policy''\<rparr>\<rparr>\<rparr>)
     [] sample_world =
   (Exit 2,
    sample_world\<lparr>stderr := ''starting\<newline>RPC error: CH003 Invalid request body\<newline>Detail: missing policy\<newline>'',
                  logbuf := []\<rparr>)"
  using dieOnRPCError_behaviour [of "[]" sample_world]
  by (simp add: sample_world_def)

lemma help_text_eq:
  "help_text e =
     ''usage: corectl [-version] [command] [arguments]\<newline>'' @
     ''\<newline>The commands are:\<newline>\<newline>'' @
     concat (map (\<lambda>name. CHR 0x09 # '' '' @ name @ ''\<newline>'') (range_commands e)) @
     ''\<newline>Flags:\<newline>'' @
     CHR 0x09 # ''-version   print version information\<newline>'' @
     ''\<newline>''"
  by (simp add: help_text_def Sprintln_def)

lemma concat_map_occurrence:
  assumes "x \<in> set xs"
  shows "\<exists>a b. concat (map f xs) = a @ f x @ b"
proof -
  from assms obtain ys zs where "xs = ys @ x # zs"
    by (meson split_list)
  then have "concat (map f xs) = concat (map f ys) @ f x @ concat (map f zs)"
    by simp
  then show ?thesis by blast
qed

lemma help_text_lists:
  assumes "range_order e" and "map_of commands name = Some cmd"
  shows "strings_Contains (help_text e) (CHR 0x09 # '' '' @ name @ ''\<newline>'')"
proof -
  from assms(2) have "name \<in> set (map fst commands)"
    by (metis map_of_SomeD image_eqI fst_conv set_map)
  with assms(1) have "name \<in> set (range_commands e)"
    by (simp add: range_order_def)
  then obtain a b where
    "concat (map (\<lambda>name. CHR 0x09 # '' '' @ name @ ''\<newline>'') (range_commands e)) =
       a @ (CHR 0x09 # '' '' @ name @ ''\<newline>'') @ b"
    using concat_map_occurrence by fast
  then have "\<exists>a' b'. help_text e = a' @ (CHR 0x09 # '' '' @ name @ ''\<newline>'') @ b'"
    unfolding help_text_eq
    by (metis append.assoc)
  then show ?thesis
    by (simp only: strings_Contains_iff)
qed

lemma distinct_commands: "distinct (map fst commands)"
  by (simp add: commands_def)

lemma range_order_length:
  assumes "range_order e"
  shows "length (range_commands e) = length commands"
proof -
  from assms have d: "distinct (range_commands e)"
    and s: "set (range_commands e) = set (map fst commands)"
    by (simp_all add: range_order_def)
  have "length (range_commands e) = card (set (range_commands e))"
    by (rule distinct_card [OF d, symmetric])
  also have "\<dots> = card (set (map fst commands))"
    by (simp only: s)
  also have "\<dots> = length (map fst commands)"
    by (rule distinct_card [OF distinct_commands])
  finally show ?thesis by simp
qed

lemma dispatch_cases:
  "(length Args < 2 \<longrightarrow>
      dispatch e Args w = (Exit 0, w\<lparr>stdout := stdout w @ help_text e\<rparr>)) \<and>
   (2 \<le> length Args \<and> map_of commands (Args ! 1) = None \<longrightarrow>
      dispatch e Args w =
        (Exit 1, w\<lparr>stderr := stderr w @ ''unknown command: '' @ Args ! 1 @ ''\<newline>'' @ help_text e\<rparr>)) \<and>
   (\<forall>cmd cl w1.
      2 \<le> length Args \<and> map_of commands (Args ! 1) = Some cmd \<and>
      mustRPCClient e w = (Return cl, w1) \<longrightarrow>
      dispatch e Args w = (Return (Invoke cmd cl (drop 2 Args)), w1)) \<and>
   (\<not> (2 \<le> length Args \<and> Args ! 1 = ''-version'') \<longrightarrow> main e Args w = dispatch e Args w)"
  by (simp add: dispatch_def main_def Fprint_stdout_def Fprint_stderr_def Fprintln_stderr_def
      Sprintln_2)

text \<open>
  C7: the command dispatcher, given no argument after the program name, prints the usage text
  to standard output and exits with status 0; given a first argument that names no registered
  command, it prints \<open>unknown command:\<close> with that name and the usage text to standard error
  and exits with status 1; otherwise it calls the handler registered under that name with the
  client that \<open>mustRPCClient\<close> returns and the remaining arguments. The usage text is the
  usage line, the heading of the command list, one line (a tab, a space, the name) for every
  registered command, each once, in the order of the map iteration, and the flags part.
  \<open>main\<close> is the dispatcher unless the first argument is \<open>-version\<close>.
\<close>

theorem dispatcher_rules:
  assumes "range_order e"
  shows "\<exists>usage.
     usage =
       ''usage: corectl [-version] [command] [arguments]\<newline>'' @
       ''\<newline>The commands are:\<newline>\<newline>'' @
       concat (map (\<lambda>name. CHR 0x09 # '' '' @ name @ ''\<newline>'') (range_commands e)) @
       ''\<newline>Flags:\<newline>'' @
       CHR 0x09 # ''-version   print version information\<newline>'' @
       ''\<newline>'' \<and>
     length (range_commands e) = length commands \<and>
     (\<forall>name cmd. map_of commands name = Some cmd \<longrightarrow>
        strings_Contains usage (CHR 0x09 # '' '' @ name @ ''\<newline>'')) \<and>
     (length Args < 2 \<longrightarrow>
        dispatch e Args w = (Exit 0, w\<lparr>stdout := stdout w @ usage\<rparr>)) \<and>
     (2 \<le> length Args \<and> map_of commands (Args ! 1) = None \<longrightarrow>
        dispatch e Args w =
          (Exit 1,
           w\<lparr>stderr := stderr w @ ''unknown command: '' @ Args ! 1 @ ''\<newline>'' @ usage\<rparr>)) \<and>
     (\<forall>cmd cl w1.
        2 \<le> length Args \<and> map_of commands (Args ! 1) = Some cmd \<and>
        mustRPCClient e w = (Return cl, w1) \<longrightarrow>
        dispatch e Args w = (Return (Invoke cmd cl (drop 2 Args)), w1)) \<and>
     (\<not> (2 \<le> length Args \<and> Args ! 1 = ''-version'') \<longrightarrow> main e Args w = dispatch e Args w)"
proof (intro exI [of _ "help_text e"] conjI)
  show "help_text e =
       ''usage: corectl [-version] [command] [arguments]\<newline>'' @
       ''\<newline>The commands are:\<newline>\<newline>'' @
       concat (map (\<lambda>name. CHR 0x09 # '' '' @ name @ ''\<newline>'') (range_commands e)) @
       ''\<newline>Flags:\<newline>'' @
       CHR 0x09 # ''-version   print version information\<newline>'' @
       ''\<newline>''"
    by (rule help_text_eq)
  show "length (range_commands e) = length commands"
    using assms by (rule range_order_length)
  show "\<forall>name cmd. map_of commands name = Some cmd \<longrightarrow>
        strings_Contains (help_text e) (CHR 0x09 # '' '' @ name @ ''\<newline>'')"
    using help_text_lists [OF assms] by blast
qed (use dispatch_cases [of Args e w] in blast)+

theorem dispatcher_rules_witness:
  "range_order sample_env \<and>
   map_of commands ''frobnicate'' = None \<and>
   map_of commands ''grant'' = Some Grant \<and>
   (\<exists>usage.
      usage =
        ''usage: corectl [-version] [command] [arguments]\<newline>'' @
        ''\<newline>The commands are:\<newline>\<newline>'' @
        CHR 0x09 # '' create-block-keypair\<newline>'' @
        CHR 0x09 # '' reset\<newline>'' @
        CHR 0x09 # '' grant\<newline>'' @
        CHR 0x09 # '' revoke\<newline>'' @
        CHR 0x09 # '' wait\<newline>'' @
        CHR 0x09 # '' create-account\<newline>'' @
        CHR 0x09 # '' update-account-tags\<newline>'' @
        CHR 0x09 # '' create-asset\<newline>'' @
        CHR 0x09 # '' update-asset-tags\<newline>'' @
        CHR 0x09 # '' build-transaction\<newline>'' @
        ''\<newline>Flags:\<newline>'' @
        CHR 0x09 # ''-version   print version information\<newline>'' @
        ''\<newline>'' \<and>
      strings_Contains usage (CHR 0x09 # '' grant\<newline>'') \<and>
      dispatch sample_env [''corectl''] sample_world =
        (Exit 0, sample_world\<lparr>stdout := usage\<rparr>) \<and>
      main sample_env [''corectl'', ''frobnicate''] sample_world =
        (Exit 1, sample_world\<lparr>stderr := ''unknown command: frobnicate\<newline>'' @ usage\<rparr>)) \<and>
   main sample_env [''corectl'', ''grant'', ''policy-a'', ''CN=Org Admins''] sample_world =
     (Return (Invoke Grant \<lparr>BaseURL = ''http://localhost:1999'', Client = None\<rparr>
                [''policy-a'', ''CN=Org Admins'']),
      sample_world)"
proof -
  have ro: "range_order sample_env"
    by (simp add: range_order_def sample_env_def distinct_commands)
  have u: "map_of commands ''frobnicate'' = None"
    by (simp add: commands_def)
  have g: "map_of commands ''grant'' = Some Grant"
    by (simp add: commands_def)
  have m: "mustRPCClient sample_env sample_world =
      (Return \<lparr>BaseURL = ''http://localhost:1999'', Client = None\<rparr>, sample_world)"
    by (simp add: mustRPCClient_def sample_env_def)
  have r: "range_commands sample_env =
      [''create-block-keypair'', ''reset'', ''grant'', ''revoke'', ''wait'', ''create-account'',
       ''update-account-tags'', ''create-asset'', ''update-asset-tags'', ''build-transaction'']"
    by (simp add: sample_env_def commands_def)
  have o: "stdout sample_world = []" "stderr sample_world = []"
    by (simp_all add: sample_world_def)
  from dispatcher_rules [OF ro, of "[''corectl'']" sample_world]
  obtain usage where
    1: "usage =
          ''usage: corectl [-version] [command] [arguments]\<newline>'' @
          ''\<newline>The commands are:\<newline>\<newline>'' @
          concat (map (\<lambda>name. CHR 0x09 # '' '' @ name @ ''\<newline>'') (range_commands sample_env)) @
          ''\<newline>Flags:\<newline>'' @
          CHR 0x09 # ''-version   print version information\<newline>'' @
          ''\<newline>''"
    and 2: "\<forall>name cmd. map_of commands name = Some cmd \<longrightarrow>
              strings_Contains usage (CHR 0x09 # '' '' @ name @ ''\<newline>'')"
    and 3: "dispatch sample_env [''corectl''] sample_world =
              (Exit 0, sample_world\<lparr>stdout := stdout sample_world @ usage\<rparr>)"
    by auto
  from dispatcher_rules [OF ro, of "[''corectl'', ''frobnicate'']" sample_world] u
  have 4: "main sample_env [''corectl'', ''frobnicate''] sample_world =
     (Exit 1,
      sample_world\<lparr>stderr := stderr sample_world @ ''unknown command: '' @ ''frobnicate'' @
                         ''\<newline>'' @ usage\<rparr>)"
    unfolding 1 by auto
  from dispatcher_rules [OF ro, of "[''corectl'', ''grant'', ''policy-a'', ''CN=Org Admins'']"
      sample_world] g m
  have 5: "main sample_env [''corectl'', ''grant'', ''policy-a'', ''CN=Org Admins''] sample_world =
     (Return (Invoke Grant \<lparr>BaseURL = ''http://localhost:1999'', Client = None\<rparr>
                [''policy-a'', ''CN=Org Admins'']),
      sample_world)"
    by auto
  from 2 g have 6: "strings_Contains usage (CHR 0x09 # '' '' @ ''grant'' @ ''\<newline>'')"
    by blast
  have 7: "usage =
        ''usage: corectl [-version] [command] [arguments]\<newline>'' @
        ''\<newline>The commands are:\<newline>\<newline>'' @
        CHR 0x09 # '' create-block-keypair\<newline>'' @
        CHR 0x09 # '' reset\<newline>'' @
        CHR 0x09 # '' grant\<newline>'' @
        CHR 0x09 # '' revoke\<newline>'' @
        CHR 0x09 # '' wait\<newline>'' @
        CHR 0x09 # '' create-account\<newline>'' @
        CHR 0x09 # '' update-account-tags\<newline>'' @
        CHR 0x09 # '' create-asset\<newline>'' @
        CHR 0x09 # '' update-asset-tags\<newline>'' @
        CHR 0x09 # '' build-transaction\<newline>'' @
        ''\<newline>Flags:\<newline>'' @
        CHR 0x09 # ''-version   print version information\<newline>'' @
        ''\<newline>''"
    unfolding 1 r by simp
  from 3 4 6 o have
    "strings_Contains usage (CHR 0x09 # '' grant\<newline>'') \<and>
      dispatch sample_env [''corectl''] sample_world =
        (Exit 0, sample_world\<lparr>stdout := usage\<rparr>) \<and>
      main sample_env [''corectl'', ''frobnicate''] sample_world =
        (Exit 1, sample_world\<lparr>stderr := ''unknown command: frobnicate\<newline>'' @ usage\<rparr>)"
    by simp
  with 7 ro u g 5 show ?thesis
    by blast
qed

text \<open>
  C2 (as the code has it): when \<open>core.TLSConfig\<close> reports no TLS material, the client is bound
  to the configured URL unchanged and nothing fails. When it returns a configuration, a
  configured URL that begins with \<open>http:\<close> is bound with that prefix replaced by \<open>https:\<close>,
  and any other configured URL is bound unchanged; so the bound URL begins with \<open>https:\<close>
  exactly when the configured URL begins with \<open>http:\<close> or \<open>https:\<close>.
\<close>

theorem mustRPCClient_url:
  "(TLSConfig e = ErrNoTLS \<longrightarrow>
      mustRPCClient e w = (Return \<lparr>BaseURL = coreURL e, Client = None\<rparr>, w)) \<and>
   (\<forall>config. TLSConfig e = TLSOk config \<longrightarrow>
      (\<exists>cl. mustRPCClient e w = (Return cl, w) \<and>
         (\<forall>rest. coreURL e = ''http:'' @ rest \<longrightarrow> BaseURL cl = ''https:'' @ rest) \<and>
         (\<not> strings_HasPrefix (coreURL e) ''http:'' \<longrightarrow> BaseURL cl = coreURL e) \<and>
         (strings_HasPrefix (BaseURL cl) ''https:'' \<longleftrightarrow>
            strings_HasPrefix (coreURL e) ''http:'' \<or> strings_HasPrefix (coreURL e) ''https:'')))"
proof (intro conjI impI allI)
  assume "TLSConfig e = ErrNoTLS"
  then show "mustRPCClient e w = (Return \<lparr>BaseURL = coreURL e, Client = None\<rparr>, w)"
    by (simp add: mustRPCClient_def)
next
  fix config
  assume ok: "TLSConfig e = TLSOk config"
  let ?url = "if strings_HasPrefix (coreURL e) ''http:'' then ''https:'' @ drop 5 (coreURL e)
              else coreURL e"
  from ok obtain t where m: "mustRPCClient e w = (Return \<lparr>BaseURL = ?url, Client = Some t\<rparr>, w)"
    by (simp add: mustRPCClient_def Let_def)
  have up: "?url = ''https:'' @ rest" if "coreURL e = ''http:'' @ rest" for rest
    using that by (simp add: strings_HasPrefix_def)
  have keep: "?url = coreURL e" if "\<not> strings_HasPrefix (coreURL e) ''http:''"
    using that by simp
  have https: "strings_HasPrefix ?url ''https:'' \<longleftrightarrow>
      strings_HasPrefix (coreURL e) ''http:'' \<or> strings_HasPrefix (coreURL e) ''https:''"
    by (auto simp: strings_HasPrefix_def)
  from m up keep https
  show "\<exists>cl. mustRPCClient e w = (Return cl, w) \<and>
         (\<forall>rest. coreURL e = ''http:'' @ rest \<longrightarrow> BaseURL cl = ''https:'' @ rest) \<and>
         (\<not> strings_HasPrefix (coreURL e) ''http:'' \<longrightarrow> BaseURL cl = coreURL e) \<and>
         (strings_HasPrefix (BaseURL cl) ''https:'' \<longleftrightarrow>
            strings_HasPrefix (coreURL e) ''http:'' \<or> strings_HasPrefix (coreURL e) ''https:'')"
    by (intro exI [of _ "\<lparr>BaseURL = ?url, Client = Some t\<rparr>"]) simp
qed

text \<open>
  C2 as stated (the bound URL has the \<open>https\<close> scheme whatever scheme was configured) fails
  for the configured URL \<open>ftp://localhost:1999\<close>: with a valid TLS configuration the client
  is bound to that URL unchanged.
\<close>

theorem mustRPCClient_scheme_counterexample:
  "mustRPCClient (sample_env\<lparr>coreURL := ''ftp://localhost:1999'',
                             TLSConfig := TLSOk (TLSConfigHandle 0)\<rparr>) sample_world =
     (Return \<lparr>BaseURL = ''ftp://localhost:1999'',
              Client = Some \<lparr>Dialer_Timeout = 30, Dialer_KeepAlive = 30, Dialer_DualStack = True,
                    MaxIdleConns = 100, IdleConnTimeout = 90,
                    TLSClientConfig = TLSConfigHandle 0,
                    TLSHandshakeTimeout = 10, ExpectContinueTimeout = 1\<rparr>\<rparr>,
      sample_world) \<and>
   \<not> strings_HasPrefix ''ftp://localhost:1999'' ''https:''"
  by (simp add: mustRPCClient_def sample_env_def strings_HasPrefix_def)

theorem mustRPCClient_url_witness:
  "mustRPCClient sample_env sample_world =
     (Return \<lparr>BaseURL = ''http://localhost:1999'', Client = None\<rparr>, sample_world) \<and>
   (\<exists>cl. mustRPCClient (sample_env\<lparr>TLSConfig := TLSOk (TLSConfigHandle 0)\<rparr>) sample_world =
           (Return cl, sample_world) \<and>
         BaseURL cl = ''https://localhost:1999'')"
proof -
  have 1: "TLSConfig sample_env = ErrNoTLS" "coreURL sample_env = ''http://localhost:1999''"
    by (simp_all add: sample_env_def)
  let ?e = "sample_env\<lparr>TLSConfig := TLSOk (TLSConfigHandle 0)\<rparr>"
  have 2: "TLSConfig ?e = TLSOk (TLSConfigHandle 0)"
    "coreURL ?e = ''http:'' @ ''//localhost:1999''"
    by (simp_all add: sample_env_def)
  from mustRPCClient_url [of sample_env sample_world] 1
  have a: "mustRPCClient sample_env sample_world =
     (Return \<lparr>BaseURL = ''http://localhost:1999'', Client = None\<rparr>, sample_world)"
    by simp
  from mustRPCClient_url [of ?e sample_world] 2
  obtain cl where "mustRPCClient ?e sample_world = (Return cl, sample_world)"
    "BaseURL cl = ''https:'' @ ''//localhost:1999''"
    by blast
  with a show ?thesis
    by simp
qed

end
